theory Spec2Isabelle
  imports Complex_Main "HOL-Library.Word" "HOL-Library.Signed_Division"
begin

text \<open>
  The LR table construction and the symbol table of package parser (table.go):
  \<open>ActionTable\<close> and \<open>GotoTable\<close> with their \<open>Register\<close> and \<open>Copy\<close>,
  \<open>LRTable.Insert\<close> and \<open>BuildTable\<close>, and \<open>SymbolTable\<close> with \<open>EnterScope\<close>,
  \<open>ExitScope\<close>, \<open>Register\<close>, \<open>Lookup\<close> and \<open>TempAddr\<close>; then what the
  specification says of them, numbered C1 to C10.
\<close>

section \<open>Go values\<close>

text \<open>
  Go's \<open>int\<close> is a machine integer; it is taken at its 64-bit width (amd64, arm64).
  \<open>+\<close> and \<open>*\<close> wrap around as the word operations do, comparisons read the word as
  two's complement (\<open>sint\<close>), and \<open>/\<close> truncates towards zero.
\<close>

type_synonym go_int = "64 word"

definition go_quot :: "go_int \<Rightarrow> go_int \<Rightarrow> go_int" where
  "go_quot a b = word_of_int (sint a sdiv sint b)"

text \<open>
  Maps, and the structs reached through pointers, are objects of a store: an address
  names a cell, \<open>used\<close> counts the addresses handed out so far, and an allocation
  (\<open>make\<close>, \<open>&T{...}\<close>, \<open>maps.Clone\<close>) takes the next one. A nil map or nil pointer
  is \<open>None\<close>.
\<close>

type_synonym addr = nat

record 'v store =
  cells :: "addr \<Rightarrow> 'v"
  used :: nat

definition new_store :: "'v \<Rightarrow> 'v store" where
  "new_store d = \<lparr>cells = (\<lambda>_. d), used = 0\<rparr>"

definition alloc :: "'v store \<Rightarrow> 'v \<Rightarrow> 'v store \<times> addr" where
  "alloc s v = (\<lparr>cells = (cells s)(used s := v), used = Suc (used s)\<rparr>, used s)"

definition put :: "'v store \<Rightarrow> addr \<Rightarrow> 'v \<Rightarrow> 'v store" where
  "put s a v = s\<lparr>cells := (cells s)(a := v)\<rparr>"

section \<open>Symbols, actions and errors\<close>

text \<open>
  \<open>Symbol\<close> and \<open>Terminal\<close> are declared outside table.go; the conversion
  \<open>Terminal(symbol)\<close> in \<open>Insert\<close> shows that they share their underlying type, taken
  here to be a string.
\<close>

type_synonym Symbol = string
type_synonym Terminal = string

type_synonym ActionType = string

definition SHIFT :: ActionType where "SHIFT = ''shift''"
definition REDUCE :: ActionType where "REDUCE = ''reduce''"
definition ACCEPT :: ActionType where "ACCEPT = ''accept''"
definition ERROR :: ActionType where "ERROR = ''error''"
definition GOTO :: ActionType where "GOTO = ''goto''"

record Action =
  Type :: ActionType
  Number :: go_int

text \<open>
  The errors built with \<open>fmt.Errorf\<close>, one constructor per message, carrying the
  values the message prints. \<open>HookFailure\<close> stands for whatever error a caller's
  hook returns.
\<close>

datatype error =
    ShiftReduceConflict go_int Terminal go_int go_int
  | ReduceReduceConflict go_int Terminal go_int go_int
  | NoScopeToExit
  | NoScopeToRegister
  | ItemAlreadyExists string
  | InvalidVariableSize string
  | NoScopeToLookup
  | ItemNotFound string
  | HookFailure string

datatype panic =
    NilMapAssignment
  | NilDereference
  | IndexOutOfRange
  | GetIndexPanic

section \<open>ActionTable and GotoTable\<close>

text \<open>
  \<open>type ActionTable map[int]map[Terminal]Action\<close>: a reference to a top-level map
  from state index to a row, each row a reference to a map of its own. A state with no
  entry and a state whose entry is the nil row read alike (\<open>t[stateIndex] == nil\<close>), so
  the top-level map is partial and holds the addresses of allocated rows.
\<close>

type_synonym ActionTable = "addr option"
type_synonym GotoTable = "addr option"

record TableHeap =
  ActionTables :: "(go_int \<rightharpoonup> addr) store"
  ActionRows :: "(Terminal \<rightharpoonup> Action) store"
  GotoTables :: "(go_int \<rightharpoonup> addr) store"
  GotoRows :: "(Symbol \<rightharpoonup> go_int) store"

definition empty_TableHeap :: TableHeap where
  "empty_TableHeap =
     \<lparr>ActionTables = new_store Map.empty, ActionRows = new_store Map.empty,
      GotoTables = new_store Map.empty, GotoRows = new_store Map.empty\<rparr>"

text \<open>\<open>make(ActionTable)\<close> and \<open>make(GotoTable)\<close>.\<close>

definition make_ActionTable :: "TableHeap \<Rightarrow> TableHeap \<times> ActionTable" where
  "make_ActionTable h =
     (let (s, a) = alloc (ActionTables h) Map.empty in (h\<lparr>ActionTables := s\<rparr>, Some a))"

definition make_GotoTable :: "TableHeap \<Rightarrow> TableHeap \<times> GotoTable" where
  "make_GotoTable h =
     (let (s, a) = alloc (GotoTables h) Map.empty in (h\<lparr>GotoTables := s\<rparr>, Some a))"

text \<open>The read \<open>v, exists := t[stateIndex][terminal]\<close>; reading a nil map finds nothing.\<close>

definition ActionTable_get :: "TableHeap \<Rightarrow> ActionTable \<Rightarrow> go_int \<Rightarrow> Terminal \<Rightarrow> Action option" where
  "ActionTable_get h t stateIndex terminal =
     (case t of
        None \<Rightarrow> None
      | Some a \<Rightarrow>
          (case cells (ActionTables h) a stateIndex of
             None \<Rightarrow> None
           | Some r \<Rightarrow> cells (ActionRows h) r terminal))"

definition GotoTable_get :: "TableHeap \<Rightarrow> GotoTable \<Rightarrow> go_int \<Rightarrow> Symbol \<Rightarrow> go_int option" where
  "GotoTable_get h t stateIndex symbol =
     (case t of
        None \<Rightarrow> None
      | Some a \<Rightarrow>
          (case cells (GotoTables h) a stateIndex of
             None \<Rightarrow> None
           | Some r \<Rightarrow> cells (GotoRows h) r symbol))"



text \<open>
  \<open>ActionTable.Register\<close>. The first statement gives the state a row when it has
  none (on a nil table that assignment panics). An occupied slot is a conflict only
  when the new action is a REDUCE and the old one a SHIFT or a REDUCE; every other
  write goes through.
\<close>

definition ActionTable_Register ::
  "TableHeap \<Rightarrow> ActionTable \<Rightarrow> go_int \<Rightarrow> Action \<Rightarrow> Terminal \<Rightarrow> panic + (error option \<times> TableHeap)" where
  "ActionTable_Register h t stateIndex action terminal =
     (case t of
        None \<Rightarrow> Inl NilMapAssignment
      | Some a \<Rightarrow>
          (let (h1, r) =
                 (case cells (ActionTables h) a stateIndex of
                    Some r \<Rightarrow> (h, r)
                  | None \<Rightarrow>
                      (let (rows, r) = alloc (ActionRows h) Map.empty
                       in (h\<lparr>ActionRows := rows,
                             ActionTables := put (ActionTables h) a
                               ((cells (ActionTables h) a)(stateIndex \<mapsto> r))\<rparr>, r)));
               row = cells (ActionRows h1) r;
               written = h1\<lparr>ActionRows := put (ActionRows h1) r (row(terminal \<mapsto> action))\<rparr>
           in (case row terminal of
                 None \<Rightarrow> Inr (None, written)
               | Some old \<Rightarrow>
                   if Type old = SHIFT \<and> Type action = REDUCE
                   then Inr (Some (ShiftReduceConflict stateIndex terminal (Number old) (Number action)), h1)
                   else if Type old = REDUCE \<and> Type action = REDUCE
                   then Inr (Some (ReduceReduceConflict stateIndex terminal (Number old) (Number action)), h1)
                   else Inr (None, written))))"

text \<open>\<open>GotoTable.Register\<close>: the conflict check is commented out, the last write wins.\<close>

definition GotoTable_Register ::
  "TableHeap \<Rightarrow> GotoTable \<Rightarrow> go_int \<Rightarrow> go_int \<Rightarrow> Symbol \<Rightarrow> panic + (error option \<times> TableHeap)" where
  "GotoTable_Register h t stateIndex nextStateIndex symbol =
     (case t of
        None \<Rightarrow> Inl NilMapAssignment
      | Some a \<Rightarrow>
          (let (h1, r) =
                 (case cells (GotoTables h) a stateIndex of
                    Some r \<Rightarrow> (h, r)
                  | None \<Rightarrow>
                      (let (rows, r) = alloc (GotoRows h) Map.empty
                       in (h\<lparr>GotoRows := rows,
                             GotoTables := put (GotoTables h) a
                               ((cells (GotoTables h) a)(stateIndex \<mapsto> r))\<rparr>, r)));
               row = cells (GotoRows h1) r
           in Inr (None, h1\<lparr>GotoRows := put (GotoRows h1) r (row(symbol \<mapsto> nextStateIndex))\<rparr>)))"

section \<open>LRTable.Insert and BuildTable\<close>

text \<open>
  The grammar and automaton types are declared outside table.go. Of a production the
  code reads \<open>Body\<close>; of an item \<open>Production\<close>, \<open>Dot\<close> and \<open>Lookahead\<close>; of a state
  \<open>Index\<close>, \<open>Items\<close> (in the order the range loop visits them) and \<open>Transitions\<close>, of
  whose target only \<open>Index\<close> is read, so the map gives that index, and \<open>None\<close> where the
  target is missing and \<open>.Index\<close> dereferences nil.
\<close>

record Production =
  Head :: Symbol
  Body :: "Symbol list"

record Item =
  Production :: Production
  Dot :: go_int
  Lookahead :: Terminal

record State =
  Index :: go_int
  Items :: "Item list"
  Transitions :: "Symbol \<rightharpoonup> go_int"

text \<open>
  Modelled from the spec: \<open>Production.Equals\<close>, missing from the sources, is structural
  equality of left-hand side and body.
\<close>

definition Equals :: "Production \<Rightarrow> Production \<Rightarrow> bool" where
  "Equals p q = (Head p = Head q \<and> Body p = Body q)"

text \<open>
  The grammar's methods are parameters: \<open>GetIndex\<close> gives \<open>None\<close> where the lookup
  fails loudly, as the spec has it for a production the grammar does not hold.
\<close>

record Grammar =
  AugmentedProduction :: Production
  GetIndex :: "Production \<Rightarrow> go_int option"
  IsNonTerminal :: "Symbol \<Rightarrow> bool"

text \<open>The package's end marker and its epsilon test, parameters as well.\<close>

record Vocabulary =
  TERMINATE :: Terminal
  IsEpsilon :: "Symbol \<Rightarrow> bool"

record LRTable =
  ActionTable :: ActionTable
  GotoTable :: GotoTable

text \<open>
  The body of the loop of \<open>LRTable.Insert\<close> for one item. \<open>err\<close> is the loop's
  variable: every branch but \<open>continue\<close> assigns it. \<open>Body[Dot]\<close> panics out of range.
\<close>

definition Insert_item ::
  "Vocabulary \<Rightarrow> LRTable \<Rightarrow> State \<Rightarrow> Grammar \<Rightarrow> Item \<Rightarrow> error option \<times> TableHeap
     \<Rightarrow> panic + (error option \<times> TableHeap)" where
  "Insert_item V t state grammar item eh =
     (let (err, h) = eh;
          body = Body (Production item);
          dot = sint (Dot item)
      in if dot \<noteq> int (length body) \<and> (dot < 0 \<or> int (length body) < dot)
         then Inl IndexOutOfRange
         else if dot = int (length body) \<or> IsEpsilon V (body ! nat dot)
         then (if Lookahead item = TERMINATE V \<and> Equals (Production item) (AugmentedProduction grammar)
               then ActionTable_Register h (ActionTable t) (Index state)
                      \<lparr>Type = ACCEPT, Number = 0\<rparr> (TERMINATE V)
               else (case GetIndex grammar (Production item) of
                       None \<Rightarrow> Inl GetIndexPanic
                     | Some n \<Rightarrow>
                         ActionTable_Register h (ActionTable t) (Index state)
                           \<lparr>Type = REDUCE, Number = n\<rparr> (Lookahead item)))
         else (let symbol = body ! nat dot
               in if IsEpsilon V symbol then Inr (err, h)
                  else if IsNonTerminal grammar symbol
                  then (case Transitions state symbol of
                          None \<Rightarrow> Inl NilDereference
                        | Some n \<Rightarrow> GotoTable_Register h (GotoTable t) (Index state) n symbol)
                  else (case Transitions state symbol of
                          None \<Rightarrow> Inl NilDereference
                        | Some n \<Rightarrow>
                            ActionTable_Register h (ActionTable t) (Index state)
                              \<lparr>Type = SHIFT, Number = n\<rparr> symbol)))"

fun Insert_items ::
  "Vocabulary \<Rightarrow> LRTable \<Rightarrow> State \<Rightarrow> Grammar \<Rightarrow> Item list \<Rightarrow> error option \<times> TableHeap
     \<Rightarrow> panic + (error option \<times> TableHeap)" where
  "Insert_items V t state grammar [] eh = Inr eh"
| "Insert_items V t state grammar (item # items) eh =
     (case Insert_item V t state grammar item eh of
        Inl p \<Rightarrow> Inl p
      | Inr eh' \<Rightarrow> Insert_items V t state grammar items eh')"

text \<open>
  \<open>LRTable.Insert\<close> has no result: the last \<open>err\<close> is dropped with the loop (the
  \<open>if err != nil\<close> has an empty body), and only the tables in the store remain.
\<close>

definition Insert :: "Vocabulary \<Rightarrow> TableHeap \<Rightarrow> LRTable \<Rightarrow> State \<Rightarrow> Grammar \<Rightarrow> panic + TableHeap" where
  "Insert V h t state grammar =
     (case Insert_items V t state grammar (Items state) (None, h) of
        Inl p \<Rightarrow> Inl p
      | Inr (err, h') \<Rightarrow> Inr h')"

fun Insert_states ::
  "Vocabulary \<Rightarrow> LRTable \<Rightarrow> Grammar \<Rightarrow> State list \<Rightarrow> TableHeap \<Rightarrow> panic + TableHeap" where
  "Insert_states V t grammar [] h = Inr h"
| "Insert_states V t grammar (state # states) h =
     (case Insert V h t state grammar of
        Inl p \<Rightarrow> Inl p
      | Inr h' \<Rightarrow> Insert_states V t grammar states h')"

text \<open>
  \<open>Parser.BuildTable\<close>, on a parser whose \<open>States\<close> are already there
  (\<open>EnsureStates\<close> is outside the sources): two fresh tables, then every state inserted.
\<close>

record Parser =
  States :: "State list"
  Grammar :: Grammar
  Table :: "LRTable option"

definition BuildTable :: "Vocabulary \<Rightarrow> TableHeap \<Rightarrow> Parser \<Rightarrow> panic + (TableHeap \<times> Parser)" where
  "BuildTable V h p =
     (let (h1, a) = make_ActionTable h;
          (h2, g) = make_GotoTable h1;
          t = \<lparr>ActionTable = a, GotoTable = g\<rparr>
      in (case Insert_states V t (Grammar p) (States p) h2 of
            Inl e \<Rightarrow> Inl e
          | Inr h3 \<Rightarrow> Inr (h3, p\<lparr>Table := Some t\<rparr>)))"

section \<open>SymbolTable\<close>

type_synonym SymbolTableItemType = string

definition SymbolTableItemTypeVariable :: SymbolTableItemType where
  "SymbolTableItemTypeVariable = ''variable''"
definition SymbolTableItemTypeArray :: SymbolTableItemType where
  "SymbolTableItemTypeArray = ''array''"
definition SymbolTableItemTypeConstant :: SymbolTableItemType where
  "SymbolTableItemTypeConstant = ''constant''"
definition SymbolTableItemTypeUnknown :: SymbolTableItemType where
  "SymbolTableItemTypeUnknown = ''unknown''"

record SymbolTableItem =
  Variable :: string
  Type :: SymbolTableItemType
  Address :: go_int
  UnderlyingType :: string
  VariableSize :: go_int
  ArraySize :: go_int
  Line :: "64 word"
  Pos' :: "64 word"

text \<open>
  A scope's \<open>Items\<close> map holds pointers to the caller's items, \<open>Parent\<close> is a pointer
  to a scope or nil. Scopes and items are objects of the store; \<open>Items\<close> itself is
  always the map \<open>EnterScope\<close> made, and has one owner, so it is a field value.
\<close>

record Scope =
  ID :: go_int
  Level :: go_int
  Items :: "string \<rightharpoonup> addr"
  Parent :: "addr option"

record SymbolHeap =
  Scopes :: "Scope store"
  SymbolTableItems :: "SymbolTableItem store"

text \<open>
  The hooks are the caller's functions of a scope pointer. They are taken to read the
  store and to answer with an error or nil; what else they do is the caller's.
\<close>

type_synonym hook = "SymbolHeap \<Rightarrow> addr \<Rightarrow> error option"

record SymbolTable =
  LegacyScopes :: "addr list"
  CurrentScope :: "addr option"
  EnterFunction :: "hook option"
  ExitFunction :: "hook option"
  addrCounter :: go_int
  constantAddr :: go_int

text \<open>
  The constants \<open>initialAddr\<close> and \<open>constantAddr\<close>; the second is written
  \<open>constantAddr0\<close>, its name being the field's.
\<close>

definition initialAddr :: go_int where
  "initialAddr = 0x10000000"

definition constantAddr0 :: go_int where
  "constantAddr0 = 0x20000000"

definition NewSymbolTable :: "hook option \<Rightarrow> hook option \<Rightarrow> SymbolTable" where
  "NewSymbolTable enter exit =
     \<lparr>LegacyScopes = [], CurrentScope = None, EnterFunction = enter, ExitFunction = exit,
      addrCounter = initialAddr, constantAddr = constantAddr0\<rparr>"

text \<open>\<open>len(st.LegacyScopes)\<close>, an \<open>int\<close>.\<close>

definition len :: "'a list \<Rightarrow> go_int" where
  "len xs = of_nat (length xs)"

definition EnterScope :: "SymbolHeap \<Rightarrow> SymbolTable \<Rightarrow> error option \<times> SymbolTable \<times> SymbolHeap" where
  "EnterScope h st =
     (let scope =
            (case CurrentScope st of
               None \<Rightarrow> \<lparr>ID = len (LegacyScopes st), Level = 0, Items = Map.empty, Parent = None\<rparr>
             | Some c \<Rightarrow>
                 \<lparr>ID = len (LegacyScopes st), Level = Level (cells (Scopes h) c) + 1,
                  Items = Map.empty, Parent = Some c\<rparr>);
          (scopes, a) = alloc (Scopes h) scope;
          h' = h\<lparr>Scopes := scopes\<rparr>;
          st' = st\<lparr>CurrentScope := Some a, LegacyScopes := LegacyScopes st @ [a]\<rparr>
      in (case EnterFunction st of
            None \<Rightarrow> (None, st', h')
          | Some f \<Rightarrow>
              (case f h' a of
                 Some err \<Rightarrow> (Some err, st', h')
               | None \<Rightarrow> (None, st', h'))))"

definition ExitScope :: "SymbolHeap \<Rightarrow> SymbolTable \<Rightarrow> error option \<times> SymbolTable" where
  "ExitScope h st =
     (case CurrentScope st of
        None \<Rightarrow> (Some NoScopeToExit, st)
      | Some c \<Rightarrow>
          (case (case ExitFunction st of None \<Rightarrow> None | Some f \<Rightarrow> f h c) of
             Some err \<Rightarrow> (Some err, st)
           | None \<Rightarrow> (None, st\<lparr>CurrentScope := Parent (cells (Scopes h) c)\<rparr>)))"

text \<open>
  The rounding of \<open>Register\<close> and \<open>TempAddr\<close>: the counter goes up by \<open>n / 4\<close>, and
  by one more when \<open>n/4*4 != n\<close>.
\<close>

definition advance :: "go_int \<Rightarrow> go_int \<Rightarrow> go_int" where
  "advance counter n =
     (let c = counter + go_quot n 4
      in if go_quot n 4 * 4 \<noteq> n then c + 1 else c)"

text \<open>
  \<open>SymbolTable.Register\<close>, on a pointer to the caller's item (nil panics at
  \<open>item.Variable\<close>, after the check for an open scope). The three checks come before
  any write; then the pointer goes into the current scope's map, and a variable or an
  array gets the counter as its address.
\<close>

definition Register ::
  "SymbolHeap \<Rightarrow> SymbolTable \<Rightarrow> addr option \<Rightarrow> panic + (error option \<times> SymbolTable \<times> SymbolHeap)" where
  "Register h st item =
     (case CurrentScope st of
        None \<Rightarrow> Inr (Some NoScopeToRegister, st, h)
      | Some c \<Rightarrow>
          (case item of
             None \<Rightarrow> Inl NilDereference
           | Some p \<Rightarrow>
               (let it = cells (SymbolTableItems h) p;
                    scope = cells (Scopes h) c
                in if Items scope (Variable it) \<noteq> None
                   then Inr (Some (ItemAlreadyExists (Variable it)), st, h)
                   else if sint (VariableSize it) \<le> 0
                   then Inr (Some (InvalidVariableSize (Variable it)), st, h)
                   else
                     (let h1 = h\<lparr>Scopes := put (Scopes h) c
                                   (scope\<lparr>Items := (Items scope)(Variable it \<mapsto> p)\<rparr>)\<rparr>;
                          h2 = h1\<lparr>SymbolTableItems := put (SymbolTableItems h1) p
                                   (it\<lparr>Address := addrCounter st\<rparr>)\<rparr>
                      in if SymbolTableItem.Type it = SymbolTableItemTypeVariable
                         then Inr (None,
                                st\<lparr>addrCounter := advance (addrCounter st) (VariableSize it)\<rparr>, h2)
                         else if SymbolTableItem.Type it = SymbolTableItemTypeArray
                         then Inr (None,
                                st\<lparr>addrCounter :=
                                     advance (addrCounter st) (VariableSize it * ArraySize it)\<rparr>, h2)
                         else Inr (None, st, h1)))))"

text \<open>
  The loop of \<open>Lookup\<close> follows \<open>Parent\<close> until it is nil; on a chain of parents that
  comes back to itself it never returns, which is \<open>None\<close> here.
\<close>

partial_function (option) Lookup_from ::
  "SymbolHeap \<Rightarrow> addr option \<Rightarrow> string \<Rightarrow> addr option \<Rightarrow> (addr option \<times> bool \<times> error option) option" where
  "Lookup_from h current variable scope =
     (case scope of
        None \<Rightarrow> Some (None, False, Some (ItemNotFound variable))
      | Some s \<Rightarrow>
          (case Items (cells (Scopes h) s) variable of
             Some p \<Rightarrow> Some (Some p, scope = current, None)
           | None \<Rightarrow> Lookup_from h current variable (Parent (cells (Scopes h) s))))"

definition Lookup ::
  "SymbolHeap \<Rightarrow> SymbolTable \<Rightarrow> string \<Rightarrow> (addr option \<times> bool \<times> error option) option" where
  "Lookup h st variable =
     (case CurrentScope st of
        None \<Rightarrow> Some (None, False, Some NoScopeToLookup)
      | Some c \<Rightarrow> Lookup_from h (CurrentScope st) variable (CurrentScope st))"

definition TempAddr :: "SymbolTable \<Rightarrow> go_int \<Rightarrow> go_int \<times> SymbolTable" where
  "TempAddr st sz = (addrCounter st, st\<lparr>addrCounter := advance (addrCounter st) sz\<rparr>)"

section \<open>Sequences of calls\<close>

text \<open>
  What a caller does with one table: the calls, in order, each on the table and the
  store the one before left. Every address the table hands out is written down with
  the counter after it, the address \<open>TempAddr\<close> returns and the address a successful
  \<open>Register\<close> gives to a variable or an array: the words from the address up to the
  counter are the ones handed out. A panic ends the sequence.
\<close>

datatype call =
    CallEnterScope
  | CallExitScope
  | CallRegister "addr option"
  | CallTempAddr go_int

type_synonym grant = "go_int \<times> go_int"

definition has_address :: "SymbolTableItem \<Rightarrow> bool" where
  "has_address it =
     (SymbolTableItem.Type it = SymbolTableItemTypeVariable \<or>
      SymbolTableItem.Type it = SymbolTableItemTypeArray)"

fun call_step ::
  "call \<Rightarrow> SymbolHeap \<times> SymbolTable \<times> grant list \<Rightarrow> panic + (SymbolHeap \<times> SymbolTable \<times> grant list)" where
  "call_step CallEnterScope (h, st, gs) =
     (case EnterScope h st of (e, st', h') \<Rightarrow> Inr (h', st', gs))"
| "call_step CallExitScope (h, st, gs) =
     (case ExitScope h st of (e, st') \<Rightarrow> Inr (h, st', gs))"
| "call_step (CallRegister item) (h, st, gs) =
     (case Register h st item of
        Inl p \<Rightarrow> Inl p
      | Inr (e, st', h') \<Rightarrow>
          Inr (h', st',
            (case (e, item) of
               (None, Some p) \<Rightarrow>
                 if has_address (cells (SymbolTableItems h') p)
                 then gs @ [(Address (cells (SymbolTableItems h') p), addrCounter st')]
                 else gs
             | _ \<Rightarrow> gs)))"
| "call_step (CallTempAddr n) (h, st, gs) =
     (case TempAddr st n of (a, st') \<Rightarrow> Inr (h, st', gs @ [(a, addrCounter st')]))"

fun calls ::
  "call list \<Rightarrow> SymbolHeap \<times> SymbolTable \<times> grant list \<Rightarrow> panic + (SymbolHeap \<times> SymbolTable \<times> grant list)" where
  "calls [] s = Inr s"
| "calls (c # cs) s =
     (case call_step c s of
        Inl p \<Rightarrow> Inl p
      | Inr s' \<Rightarrow> calls cs s')"

text \<open>
  The words a call can take, for the calls whose sizes are positive: a \<open>TempAddr\<close> of
  a positive size, a \<open>Register\<close> of an item that is there, an array only with a
  positive length and a total size within the range of \<open>int\<close>. \<open>fits\<close> says that all
  calls of a sequence are such calls and that the counter, starting from \<open>c\<close>, stays
  within the range of \<open>int\<close> even if every call takes its words.
\<close>

definition words :: "int \<Rightarrow> int" where
  "words n = (n + 3) div 4"

fun demand :: "SymbolHeap \<Rightarrow> call \<Rightarrow> int option" where
  "demand h (CallTempAddr n) = (if 0 < sint n then Some (words (sint n)) else None)"
| "demand h (CallRegister None) = None"
| "demand h (CallRegister (Some p)) =
     (let it = cells (SymbolTableItems h) p
      in if sint (VariableSize it) \<le> 0 then Some 0
         else if SymbolTableItem.Type it = SymbolTableItemTypeVariable
         then Some (words (sint (VariableSize it)))
         else if SymbolTableItem.Type it = SymbolTableItemTypeArray
         then (if 0 < sint (ArraySize it) \<and> sint (VariableSize it) * sint (ArraySize it) < 2 ^ 63
               then Some (words (sint (VariableSize it) * sint (ArraySize it)))
               else None)
         else Some 0)"
| "demand h CallEnterScope = Some 0"
| "demand h CallExitScope = Some 0"

fun fits :: "SymbolHeap \<Rightarrow> int \<Rightarrow> call list \<Rightarrow> bool" where
  "fits h c [] = True"
| "fits h c (x # xs) =
     (case demand h x of
        None \<Rightarrow> False
      | Some d \<Rightarrow> c + d < 2 ^ 63 \<and> fits h (c + d) xs)"

text \<open>
  For the proofs: the grants of a log lie one after the other, none empty, all below
  \<open>bound\<close>; and a store holds the items of another with their sizes and kinds.
\<close>

definition chained :: "grant list \<Rightarrow> int \<Rightarrow> bool" where
  "chained gs bound =
     ((\<forall>g \<in> set gs. sint (fst g) < sint (snd g) \<and> sint (snd g) \<le> bound) \<and>
      sorted_wrt (\<lambda>g g'. sint (snd g) \<le> sint (fst g')) gs)"

definition same_items :: "SymbolHeap \<Rightarrow> SymbolHeap \<Rightarrow> bool" where
  "same_items h0 h =
     (\<forall>p. VariableSize (cells (SymbolTableItems h) p) = VariableSize (cells (SymbolTableItems h0) p) \<and>
          ArraySize (cells (SymbolTableItems h) p) = ArraySize (cells (SymbolTableItems h0) p) \<and>
          SymbolTableItem.Type (cells (SymbolTableItems h) p) =
            SymbolTableItem.Type (cells (SymbolTableItems h0) p))"

section \<open>Mutations of a table\<close>











section \<open>Example inputs\<close>

text \<open>
  The grammar \<open>S1 \<rightarrow> S\<close>, \<open>S \<rightarrow> a S\<close>, \<open>S \<rightarrow> eps\<close> with end marker \<open>$\<close>, the
  productions numbered in this order.
\<close>

definition demo_Vocabulary :: Vocabulary where
  "demo_Vocabulary = \<lparr>TERMINATE = ''$'', IsEpsilon = (\<lambda>s. s = ''eps'')\<rparr>"

definition production_start :: Production where
  "production_start = \<lparr>Head = ''S1'', Body = [''S'']\<rparr>"

definition production_shift :: Production where
  "production_shift = \<lparr>Head = ''S'', Body = [''a'', ''S'']\<rparr>"

definition production_eps :: Production where
  "production_eps = \<lparr>Head = ''S'', Body = [''eps'']\<rparr>"

definition demo_Grammar :: Grammar where
  "demo_Grammar =
     \<lparr>AugmentedProduction = production_start,
      GetIndex = (\<lambda>p. if p = production_start then Some 0
                       else if p = production_shift then Some 1
                       else if p = production_eps then Some 2 else None),
      IsNonTerminal = (\<lambda>s. s = ''S'' \<or> s = ''S1'')\<rparr>"

text \<open>
  A state that asks for a reduction by \<open>S \<rightarrow> eps\<close> on \<open>a\<close> and then for a shift of
  \<open>a\<close> to state 1.
\<close>

definition state_reduce_shift :: State where
  "state_reduce_shift =
     \<lparr>Index = 0,
      State.Items = [\<lparr>Production = production_eps, Dot = 0, Lookahead = ''a''\<rparr>,
               \<lparr>Production = production_shift, Dot = 0, Lookahead = ''$''\<rparr>],
      Transitions = [''a'' \<mapsto> 1]\<rparr>"

definition built_reduce_shift :: "panic + (TableHeap \<times> Parser)" where
  "built_reduce_shift =
     BuildTable demo_Vocabulary empty_TableHeap
       \<lparr>States = [state_reduce_shift], Grammar = demo_Grammar, Table = None\<rparr>"

text \<open>
  The state of the spec's scenario: an item \<open>S \<rightarrow> \<bullet>eps\<close> with lookahead \<open>$\<close>; and the
  item \<open>S1 \<rightarrow> S\<bullet>\<close> with lookahead \<open>$\<close>. \<open>heap0\<close> holds one empty table of each
  kind, at address 0.
\<close>

definition item_eps :: Item where
  "item_eps = \<lparr>Production = production_eps, Dot = 0, Lookahead = ''$''\<rparr>"

definition item_accept :: Item where
  "item_accept = \<lparr>Production = production_start, Dot = 1, Lookahead = ''$''\<rparr>"

definition state_eps :: State where
  "state_eps = \<lparr>Index = 0, State.Items = [item_eps], Transitions = Map.empty\<rparr>"

definition built_eps :: "panic + (TableHeap \<times> Parser)" where
  "built_eps =
     BuildTable demo_Vocabulary empty_TableHeap
       \<lparr>States = [state_eps], Grammar = demo_Grammar, Table = None\<rparr>"

definition table0 :: LRTable where
  "table0 = \<lparr>ActionTable = Some 0, GotoTable = Some 0\<rparr>"

definition heap0 :: TableHeap where
  "heap0 = fst (make_GotoTable (fst (make_ActionTable empty_TableHeap)))"


text \<open>
  For the symbol table: a store without objects; the caller's \<open>&SymbolTableItem{...}\<close>;
  a variable and an array item; a hook that fails.
\<close>

definition empty_SymbolHeap :: SymbolHeap where
  "empty_SymbolHeap =
     \<lparr>Scopes = new_store \<lparr>ID = 0, Level = 0, Scope.Items = Map.empty, Parent = None\<rparr>,
      SymbolTableItems = new_store
        \<lparr>Variable = [], SymbolTableItem.Type = [], Address = 0, UnderlyingType = [],
         VariableSize = 0, ArraySize = 0, Line = 0, Pos' = 0\<rparr>\<rparr>"

definition new_item :: "SymbolHeap \<Rightarrow> SymbolTableItem \<Rightarrow> SymbolHeap \<times> addr" where
  "new_item h it =
     (let (s, p) = alloc (SymbolTableItems h) it in (h\<lparr>SymbolTableItems := s\<rparr>, p))"

definition variable_item :: "string \<Rightarrow> go_int \<Rightarrow> SymbolTableItem" where
  "variable_item name n =
     \<lparr>Variable = name, SymbolTableItem.Type = SymbolTableItemTypeVariable, Address = 0,
      UnderlyingType = ''int'', VariableSize = n, ArraySize = 1, Line = 0, Pos' = 0\<rparr>"

definition array_item :: "string \<Rightarrow> go_int \<Rightarrow> go_int \<Rightarrow> SymbolTableItem" where
  "array_item name n k =
     \<lparr>Variable = name, SymbolTableItem.Type = SymbolTableItemTypeArray, Address = 0,
      UnderlyingType = ''int'', VariableSize = n, ArraySize = k, Line = 0, Pos' = 0\<rparr>"

definition failing_hook :: hook where
  "failing_hook h a = Some (HookFailure ''hook'')"

text \<open>
  \<open>x\<close> declared in an outer scope, an inner scope entered, and a second item named
  \<open>x\<close> (at address 1) not yet declared.
\<close>

definition shadow_heap0 :: SymbolHeap where
  "shadow_heap0 =
     fst (new_item (fst (new_item empty_SymbolHeap (variable_item ''x'' 4))) (variable_item ''x'' 8))"

definition shadow_state :: "SymbolTable \<times> SymbolHeap" where
  "shadow_state =
     (case EnterScope shadow_heap0 (NewSymbolTable None None) of
        (e1, st1, h1) \<Rightarrow>
          (case Register h1 st1 (Some 0) of
             Inl _ \<Rightarrow> (st1, h1)
           | Inr (e2, st2, h2) \<Rightarrow>
               (case EnterScope h2 st2 of (e3, st3, h3) \<Rightarrow> (st3, h3))))"

text \<open>
  One open scope; variables \<open>a\<close>, \<open>b\<close>, \<open>c\<close> of sizes 4, 6 and 4 at the addresses 0, 1
  and 2 of the store, an array \<open>d\<close> of -1 elements of size 1 at 3, a variable \<open>e\<close> of
  size 0 at 4.
\<close>

definition sizes_heap0 :: SymbolHeap where
  "sizes_heap0 =
     fst (new_item (fst (new_item (fst (new_item (fst (new_item (fst (new_item empty_SymbolHeap
       (variable_item ''a'' 4))) (variable_item ''b'' 6))) (variable_item ''c'' 4)))
       (array_item ''d'' 1 (- 1)))) (variable_item ''e'' 0))"

definition sizes_state :: "SymbolTable \<times> SymbolHeap" where
  "sizes_state =
     (case EnterScope sizes_heap0 (NewSymbolTable None None) of (e, st, h) \<Rightarrow> (st, h))"

text \<open>Registering the items at the given addresses one after the other.\<close>

definition Register_all :: "addr list \<Rightarrow> SymbolTable \<times> SymbolHeap \<Rightarrow> SymbolTable \<times> SymbolHeap" where
  "Register_all ps s =
     fold (\<lambda>p (st, h). case Register h st (Some p) of
                          Inr (None, st', h') \<Rightarrow> (st', h')
                        | _ \<Rightarrow> (st, h)) ps s"

text \<open>A table whose hooks fail, before and after its first \<open>EnterScope\<close>.\<close>

definition hooked_table :: SymbolTable where
  "hooked_table = NewSymbolTable (Some failing_hook) (Some failing_hook)"

definition hooked_state :: "SymbolTable \<times> SymbolHeap" where
  "hooked_state =
     (case EnterScope empty_SymbolHeap hooked_table of (e, st, h) \<Rightarrow> (st, h))"

text \<open>
  A scope entered, \<open>a\<close> and \<open>b\<close> registered, a temporary of 5 bytes, \<open>c\<close> registered, a
  temporary of 8 bytes, the scope left.
\<close>

definition demo_calls :: "call list" where
  "demo_calls =
     [CallEnterScope, CallRegister (Some 0), CallRegister (Some 1), CallTempAddr 5,
      CallRegister (Some 2), CallTempAddr 8, CallExitScope]"

text \<open>
  The state of the spec's scenario in full: \<open>S1 \<rightarrow> \<bullet>S\<close>, \<open>S \<rightarrow> \<bullet>a S\<close> and
  \<open>S \<rightarrow> \<bullet>eps\<close>, all with lookahead \<open>$\<close>, with transitions on \<open>S\<close> to state 1 and on
  \<open>a\<close> to state 2; and the state that holds \<open>S1 \<rightarrow> S\<bullet>\<close>.
\<close>

definition state_start :: State where
  "state_start =
     \<lparr>Index = 0,
      State.Items = [\<lparr>Production = production_start, Dot = 0, Lookahead = ''$''\<rparr>,
                     \<lparr>Production = production_shift, Dot = 0, Lookahead = ''$''\<rparr>,
                     item_eps],
      Transitions = [''S'' \<mapsto> 1, ''a'' \<mapsto> 2]\<rparr>"

definition state_accept :: State where
  "state_accept = \<lparr>Index = 1, State.Items = [item_accept], Transitions = Map.empty\<rparr>"



section \<open>Facts about the store and the registers\<close>

lemma ActionType_distinct:
  "SHIFT \<noteq> REDUCE" "REDUCE \<noteq> SHIFT" "ACCEPT \<noteq> REDUCE" "ACCEPT \<noteq> SHIFT"
  "REDUCE \<noteq> ACCEPT" "SHIFT \<noteq> ACCEPT"
  by (simp_all add: SHIFT_def REDUCE_def ACCEPT_def)

lemma Register_total:
  "\<exists>e h'. ActionTable_Register h (Some a) s act x = Inr (e, h')"
  by (auto simp: ActionTable_Register_def Let_def alloc_def split: option.splits prod.splits)

lemma Register_written:
  "ActionTable_Register h (Some a) s act x = Inr (None, h') \<Longrightarrow>
   ActionTable_get h' (Some a) s x = Some act"
  by (auto simp: ActionTable_Register_def ActionTable_get_def Let_def alloc_def put_def
      split: option.splits prod.splits if_splits)

lemma Register_conflict:
  "ActionTable_Register h (Some a) s act x = Inr (Some e, h') \<Longrightarrow>
   h' = h \<and> Action.Type act = REDUCE \<and>
   (\<exists>old. ActionTable_get h (Some a) s x = Some old \<and>
      (Action.Type old = SHIFT \<or> Action.Type old = REDUCE))"
  by (auto simp: ActionTable_Register_def ActionTable_get_def Let_def alloc_def put_def
      split: option.splits prod.splits if_splits)

lemma Register_goto_frame:
  "ActionTable_Register h t s act x = Inr (e, h') \<Longrightarrow>
   GotoTables h' = GotoTables h \<and> GotoRows h' = GotoRows h"
  by (auto simp: ActionTable_Register_def Let_def alloc_def put_def
      split: option.splits prod.splits if_splits)

lemma Register_not_reduce:
  "Action.Type act \<noteq> REDUCE \<Longrightarrow> \<exists>h'. ActionTable_Register h (Some a) s act x = Inr (None, h')"
  by (auto simp: ActionTable_Register_def Let_def alloc_def put_def
      split: option.splits prod.splits if_splits)

lemma Register_effect:
  "\<exists>e h'. ActionTable_Register h (Some a) s act x = Inr (e, h') \<and>
     GotoTables h' = GotoTables h \<and> GotoRows h' = GotoRows h \<and>
     ((e = None \<and> ActionTable_get h' (Some a) s x = Some act) \<or>
      (e \<noteq> None \<and> h' = h \<and> Action.Type act = REDUCE \<and>
       (\<exists>old. ActionTable_get h (Some a) s x = Some old \<and>
          (Action.Type old = SHIFT \<or> Action.Type old = REDUCE))))"
proof -
  obtain e h' where r: "ActionTable_Register h (Some a) s act x = Inr (e, h')"
    using Register_total by blast
  show ?thesis
  proof (cases e)
    case None
    with r Register_written [of h a s act x h'] Register_goto_frame [OF r] show ?thesis
      by simp
  next
    case (Some err)
    with r Register_conflict [of h a s act x err h'] Register_goto_frame [OF r] show ?thesis
      by simp
  qed
qed

lemma Insert_item_completed:
  assumes "sint (Dot item) = int (length (Body (Production item))) \<or>
           (0 \<le> sint (Dot item) \<and> sint (Dot item) < int (length (Body (Production item))) \<and>
            IsEpsilon V (Body (Production item) ! nat (sint (Dot item))))"
  shows "Insert_item V t state g item (err, h) =
     (if Lookahead item = TERMINATE V \<and> Equals (Production item) (AugmentedProduction g)
      then ActionTable_Register h (ActionTable t) (Index state)
             \<lparr>Action.Type = ACCEPT, Number = 0\<rparr> (TERMINATE V)
      else (case GetIndex g (Production item) of
              None \<Rightarrow> Inl GetIndexPanic
            | Some n \<Rightarrow>
                ActionTable_Register h (ActionTable t) (Index state)
                  \<lparr>Action.Type = REDUCE, Number = n\<rparr> (Lookahead item)))"
  using assms by (auto simp: Insert_item_def Let_def)

lemma Insert_items_append:
  "Insert_items V t state g (xs @ ys) eh =
     (case Insert_items V t state g xs eh of
        Inl p \<Rightarrow> Inl p
      | Inr eh' \<Rightarrow> Insert_items V t state g ys eh')"
  by (induction xs arbitrary: eh) (auto split: sum.splits)

lemma Insert_at_item:
  assumes "State.Items state = xs @ item # ys"
    and "Insert_items V t state g xs (None, h) = Inr eh"
  shows "Insert V h t state g =
     (case Insert_item V t state g item eh of
        Inl p \<Rightarrow> Inl p
      | Inr eh' \<Rightarrow>
          (case Insert_items V t state g ys eh' of
             Inl p \<Rightarrow> Inl p
           | Inr (e, h') \<Rightarrow> Inr h'))"
  using assms by (simp add: Insert_def Insert_items_append split: sum.splits)

lemma Insert_item_completed_effect:
  assumes completed:
    "sint (Dot item) = int (length (Body (Production item))) \<or>
     (0 \<le> sint (Dot item) \<and> sint (Dot item) < int (length (Body (Production item))) \<and>
      IsEpsilon V (Body (Production item) ! nat (sint (Dot item))))"
    and tab: "ActionTable t = Some a"
  shows
    "if Lookahead item = TERMINATE V \<and> Equals (Production item) (AugmentedProduction g)
     then Insert_item V t state g item (err, h) =
            ActionTable_Register h (Some a) (Index state)
              \<lparr>Action.Type = ACCEPT, Number = 0\<rparr> (TERMINATE V) \<and>
          (\<exists>h'. Insert_item V t state g item (err, h) = Inr (None, h') \<and>
             ActionTable_get h' (Some a) (Index state) (TERMINATE V) =
               Some \<lparr>Action.Type = ACCEPT, Number = 0\<rparr>)
     else (case GetIndex g (Production item) of
             None \<Rightarrow> Insert_item V t state g item (err, h) = Inl GetIndexPanic
           | Some n \<Rightarrow>
               Insert_item V t state g item (err, h) =
                 ActionTable_Register h (Some a) (Index state)
                   \<lparr>Action.Type = REDUCE, Number = n\<rparr> (Lookahead item) \<and>
               ((\<exists>h'. Insert_item V t state g item (err, h) = Inr (None, h') \<and>
                   ActionTable_get h' (Some a) (Index state) (Lookahead item) =
                     Some \<lparr>Action.Type = REDUCE, Number = n\<rparr>) \<or>
                (\<exists>e old. Insert_item V t state g item (err, h) = Inr (Some e, h) \<and>
                   ActionTable_get h (Some a) (Index state) (Lookahead item) = Some old \<and>
                   (Action.Type old = SHIFT \<or> Action.Type old = REDUCE))))"
proof (cases "Lookahead item = TERMINATE V \<and> Equals (Production item) (AugmentedProduction g)")
  case True
  let ?acc = "\<lparr>Action.Type = ACCEPT, Number = 0\<rparr>"
  have step: "Insert_item V t state g item (err, h) =
      ActionTable_Register h (Some a) (Index state) ?acc (TERMINATE V)"
    using Insert_item_completed [OF completed, of t state g err h] True tab by simp
  have "Action.Type ?acc \<noteq> REDUCE"
    by (simp add: ActionType_distinct)
  then obtain h' where reg:
    "ActionTable_Register h (Some a) (Index state) ?acc (TERMINATE V) = Inr (None, h')"
    using Register_not_reduce by blast
  from Register_written [OF reg] step reg True show ?thesis
    by simp
next
  case False
  then have cond:
    "(Lookahead item = TERMINATE V \<and> Equals (Production item) (AugmentedProduction g)) = False"
    by simp
  show ?thesis
  proof (cases "GetIndex g (Production item)")
    case None
    have "Insert_item V t state g item (err, h) = Inl GetIndexPanic"
      using Insert_item_completed [OF completed, of t state g err h]
      by (simp only: cond if_False None option.case)
    then show ?thesis
      by (simp only: cond if_False None option.case)
  next
    case (Some n)
    let ?red = "\<lparr>Action.Type = REDUCE, Number = n\<rparr>"
    have step: "Insert_item V t state g item (err, h) =
        ActionTable_Register h (Some a) (Index state) ?red (Lookahead item)"
      using Insert_item_completed [OF completed, of t state g err h]
      by (simp only: cond if_False Some option.case tab)
    have "(\<exists>h'. Insert_item V t state g item (err, h) = Inr (None, h') \<and>
             ActionTable_get h' (Some a) (Index state) (Lookahead item) = Some ?red) \<or>
          (\<exists>e old. Insert_item V t state g item (err, h) = Inr (Some e, h) \<and>
             ActionTable_get h (Some a) (Index state) (Lookahead item) = Some old \<and>
             (Action.Type old = SHIFT \<or> Action.Type old = REDUCE))"
      using Register_effect [of h a "Index state" ?red "Lookahead item"]
      unfolding step by auto
    with step show ?thesis
      by (simp only: cond if_False Some option.case simp_thms)
  qed
qed

lemma Insert_item_epsilon_effect:
  assumes eps: "0 \<le> sint (Dot item)"
      "sint (Dot item) < int (length (Body (Production item)))"
      "IsEpsilon V (Body (Production item) ! nat (sint (Dot item)))"
    and tab: "ActionTable t = Some a"
    and idx: "(Lookahead item = TERMINATE V \<and>
               Equals (Production item) (AugmentedProduction g)) \<or>
              GetIndex g (Production item) = Some n"
  shows "\<exists>e h' act x.
     (act, x) =
       (if Lookahead item = TERMINATE V \<and> Equals (Production item) (AugmentedProduction g)
        then (\<lparr>Action.Type = ACCEPT, Number = 0\<rparr>, TERMINATE V)
        else (\<lparr>Action.Type = REDUCE, Number = n\<rparr>, Lookahead item)) \<and>
     Insert_item V t state g item (err, h) =
       ActionTable_Register h (Some a) (Index state) act x \<and>
     Insert_item V t state g item (err, h) = Inr (e, h') \<and>
     GotoTables h' = GotoTables h \<and> GotoRows h' = GotoRows h \<and>
     ((e = None \<and> ActionTable_get h' (Some a) (Index state) x = Some act) \<or>
      (e \<noteq> None \<and> h' = h))"
proof -
  let ?acc = "Lookahead item = TERMINATE V \<and> Equals (Production item) (AugmentedProduction g)"
  define act where "act = (if ?acc then \<lparr>Action.Type = ACCEPT, Number = 0\<rparr>
                           else \<lparr>Action.Type = REDUCE, Number = n\<rparr>)"
  define x where "x = (if ?acc then TERMINATE V else Lookahead item)"
  have completed:
    "sint (Dot item) = int (length (Body (Production item))) \<or>
     (0 \<le> sint (Dot item) \<and> sint (Dot item) < int (length (Body (Production item))) \<and>
      IsEpsilon V (Body (Production item) ! nat (sint (Dot item))))"
    using eps by simp
  have step: "Insert_item V t state g item (err, h) =
      ActionTable_Register h (Some a) (Index state) act x"
    using Insert_item_completed [OF completed, of t state g err h] idx tab
    by (auto simp: act_def x_def)
  have pair: "(act, x) = (if ?acc then (\<lparr>Action.Type = ACCEPT, Number = 0\<rparr>, TERMINATE V)
                          else (\<lparr>Action.Type = REDUCE, Number = n\<rparr>, Lookahead item))"
    by (simp add: act_def x_def)
  from Register_effect [of h a "Index state" act x] obtain e h' where reg:
    "ActionTable_Register h (Some a) (Index state) act x = Inr (e, h')"
    "GotoTables h' = GotoTables h" "GotoRows h' = GotoRows h"
    "(e = None \<and> ActionTable_get h' (Some a) (Index state) x = Some act) \<or>
     (e \<noteq> None \<and> h' = h)"
    by blast
  show ?thesis
    apply (rule exI [of _ e], rule exI [of _ h'], rule exI [of _ act], rule exI [of _ x])
    using step pair reg by (simp only: simp_thms)
qed

lemmas table_eval =
  make_ActionTable_def make_GotoTable_def empty_TableHeap_def new_store_def alloc_def put_def
  ActionTable_Register_def GotoTable_Register_def ActionTable_get_def GotoTable_get_def
  Let_def SHIFT_def REDUCE_def ACCEPT_def

lemmas demo_eval =
  demo_Vocabulary_def demo_Grammar_def production_start_def production_shift_def
  production_eps_def Equals_def Insert_item_def Insert_def BuildTable_def

section \<open>Conflicts between a SHIFT and a REDUCE\<close>

text \<open>
  C1. A SHIFT and a REDUCE registered at one slot are to report a conflict and to keep
  the first of the two, in either order. With the REDUCE first the code does neither:
  on a fresh table, after \<open>REDUCE 1\<close> at state 0 and terminal \<open>a\<close>, registering
  \<open>SHIFT 2\<close> there returns no error and the slot holds \<open>SHIFT 2\<close>. The same through
  \<open>BuildTable\<close>, whose result has no place for an error: for a state whose items ask
  for a reduction on \<open>a\<close> and then for a shift of \<open>a\<close>, the built table holds the shift.
\<close>

theorem Register_reduce_then_shift_overwrites:
  "(case make_ActionTable empty_TableHeap of
      (h0, t) \<Rightarrow>
        (case ActionTable_Register h0 t 0 \<lparr>Action.Type = REDUCE, Number = 1\<rparr> ''a'' of
           Inl _ \<Rightarrow> False
         | Inr (e1, h1) \<Rightarrow>
             e1 = None \<and>
             ActionTable_get h1 t 0 ''a'' = Some \<lparr>Action.Type = REDUCE, Number = 1\<rparr> \<and>
             (case ActionTable_Register h1 t 0 \<lparr>Action.Type = SHIFT, Number = 2\<rparr> ''a'' of
                Inl _ \<Rightarrow> False
              | Inr (e2, h2) \<Rightarrow>
                  e2 = None \<and>
                  ActionTable_get h2 t 0 ''a'' = Some \<lparr>Action.Type = SHIFT, Number = 2\<rparr>))) \<and>
   (case built_reduce_shift of
      Inl _ \<Rightarrow> False
    | Inr (h, p) \<Rightarrow>
        (case Table p of
           None \<Rightarrow> False
         | Some t \<Rightarrow> ActionTable_get h (ActionTable t) 0 ''a'' = Some \<lparr>Action.Type = SHIFT, Number = 1\<rparr>))"
  by (simp add: built_reduce_shift_def state_reduce_shift_def table_eval demo_eval)

section \<open>Completed items\<close>

text \<open>
  C4. Take a state, a completed item in it (dot at the end of the body, or epsilon at
  the dot), and a table that is not nil; let \<open>Insert\<close> have gone through the items
  before it without a panic, leaving the store \<open>h1\<close>. If the item's lookahead is
  TERMINATE and its production equals the augmented production, \<open>Insert\<close> registers
  ACCEPT at (state, TERMINATE) on \<open>h1\<close>: the registration returns no conflict, the
  slot then holds ACCEPT, not a REDUCE, and \<open>Insert\<close> goes on from that store with the
  remaining items. Otherwise \<open>Insert\<close> registers REDUCE with the grammar's index of the
  production at (state, lookahead) on \<open>h1\<close> and goes on from the store the registration
  left: the slot then holds the REDUCE, unless a SHIFT or a REDUCE was there, which
  stays with a conflict returned. Where the grammar has no index for the production,
  the lookup's panic is the end of \<open>Insert\<close>.
\<close>

theorem Insert_completed_item:
  assumes items: "State.Items state = xs @ item # ys"
    and before: "Insert_items V t state g xs (None, h) = Inr (err, h1)"
    and completed:
    "sint (Dot item) = int (length (Body (Production item))) \<or>
     (0 \<le> sint (Dot item) \<and> sint (Dot item) < int (length (Body (Production item))) \<and>
      IsEpsilon V (Body (Production item) ! nat (sint (Dot item))))"
    and tab: "ActionTable t = Some a"
  shows
    "if Lookahead item = TERMINATE V \<and> Equals (Production item) (AugmentedProduction g)
     then \<exists>h2.
            ActionTable_Register h1 (Some a) (Index state)
              \<lparr>Action.Type = ACCEPT, Number = 0\<rparr> (TERMINATE V) = Inr (None, h2) \<and>
            ActionTable_get h2 (Some a) (Index state) (TERMINATE V) =
              Some \<lparr>Action.Type = ACCEPT, Number = 0\<rparr> \<and>
            Insert V h t state g =
              (case Insert_items V t state g ys (None, h2) of
                 Inl p \<Rightarrow> Inl p
               | Inr (e', h') \<Rightarrow> Inr h')
     else (case GetIndex g (Production item) of
             None \<Rightarrow> Insert V h t state g = Inl GetIndexPanic
           | Some n \<Rightarrow>
               \<exists>e h2.
                 ActionTable_Register h1 (Some a) (Index state)
                   \<lparr>Action.Type = REDUCE, Number = n\<rparr> (Lookahead item) = Inr (e, h2) \<and>
                 Insert V h t state g =
                   (case Insert_items V t state g ys (e, h2) of
                      Inl p \<Rightarrow> Inl p
                    | Inr (e', h') \<Rightarrow> Inr h') \<and>
                 ((e = None \<and>
                   ActionTable_get h2 (Some a) (Index state) (Lookahead item) =
                     Some \<lparr>Action.Type = REDUCE, Number = n\<rparr>) \<or>
                  (\<exists>old. e \<noteq> None \<and> h2 = h1 \<and>
                     ActionTable_get h1 (Some a) (Index state) (Lookahead item) = Some old \<and>
                     (Action.Type old = SHIFT \<or> Action.Type old = REDUCE))))"
proof -
  note at = Insert_at_item [OF items before]
  note eff = Insert_item_completed_effect [OF completed tab, of g state err h1]
  show ?thesis
  proof (cases "Lookahead item = TERMINATE V \<and> Equals (Production item) (AugmentedProduction g)")
    case True
    then have cond:
      "(Lookahead item = TERMINATE V \<and> Equals (Production item) (AugmentedProduction g)) = True"
      by simp
    note both = eff [unfolded cond if_True]
    have same: "Insert_item V t state g item (err, h1) =
        ActionTable_Register h1 (Some a) (Index state)
          \<lparr>Action.Type = ACCEPT, Number = 0\<rparr> (TERMINATE V)"
      by (rule conjunct1 [OF both])
    have ex: "\<exists>h'. Insert_item V t state g item (err, h1) = Inr (None, h') \<and>
        ActionTable_get h' (Some a) (Index state) (TERMINATE V) =
          Some \<lparr>Action.Type = ACCEPT, Number = 0\<rparr>"
      by (rule conjunct2 [OF both])
    from ex obtain h2 where
      step: "Insert_item V t state g item (err, h1) = Inr (None, h2)"
      and got: "ActionTable_get h2 (Some a) (Index state) (TERMINATE V) =
          Some \<lparr>Action.Type = ACCEPT, Number = 0\<rparr>"
      by blast
    have reg: "ActionTable_Register h1 (Some a) (Index state)
          \<lparr>Action.Type = ACCEPT, Number = 0\<rparr> (TERMINATE V) = Inr (None, h2)"
      using same step by simp
    have "Insert V h t state g =
        (case Insert_items V t state g ys (None, h2) of
           Inl p \<Rightarrow> Inl p
         | Inr (e', h') \<Rightarrow> Inr h')"
      using at step by simp
    with reg got True show ?thesis
      by auto
  next
    case False
    then have cond:
      "(Lookahead item = TERMINATE V \<and> Equals (Production item) (AugmentedProduction g)) = False"
      by simp
    show ?thesis
    proof (cases "GetIndex g (Production item)")
      case None
      with eff have "Insert_item V t state g item (err, h1) = Inl GetIndexPanic"
        by (simp only: cond if_False option.case)
      with at have "Insert V h t state g = Inl GetIndexPanic"
        by simp
      then show ?thesis
        by (simp only: cond if_False None option.case)
    next
      case (Some n)
      let ?red = "\<lparr>Action.Type = REDUCE, Number = n\<rparr>"
      from eff have step: "Insert_item V t state g item (err, h1) =
          ActionTable_Register h1 (Some a) (Index state) ?red (Lookahead item)"
        by (simp only: cond if_False Some option.case)
      obtain e h2 where reg:
        "ActionTable_Register h1 (Some a) (Index state) ?red (Lookahead item) = Inr (e, h2)"
        using Register_total by blast
      have ins: "Insert V h t state g =
          (case Insert_items V t state g ys (e, h2) of
             Inl p \<Rightarrow> Inl p
           | Inr (e', h') \<Rightarrow> Inr h')"
        using at step reg by simp
      have eff2: "(e = None \<and>
            ActionTable_get h2 (Some a) (Index state) (Lookahead item) = Some ?red) \<or>
          (\<exists>old. e \<noteq> None \<and> h2 = h1 \<and>
             ActionTable_get h1 (Some a) (Index state) (Lookahead item) = Some old \<and>
             (Action.Type old = SHIFT \<or> Action.Type old = REDUCE))"
        using Register_effect [of h1 a "Index state" ?red "Lookahead item"] reg by auto
      have "\<exists>e h2.
          ActionTable_Register h1 (Some a) (Index state) ?red (Lookahead item) = Inr (e, h2) \<and>
          Insert V h t state g =
            (case Insert_items V t state g ys (e, h2) of
               Inl p \<Rightarrow> Inl p
             | Inr (e', h') \<Rightarrow> Inr h') \<and>
          ((e = None \<and>
            ActionTable_get h2 (Some a) (Index state) (Lookahead item) = Some ?red) \<or>
           (\<exists>old. e \<noteq> None \<and> h2 = h1 \<and>
              ActionTable_get h1 (Some a) (Index state) (Lookahead item) = Some old \<and>
              (Action.Type old = SHIFT \<or> Action.Type old = REDUCE)))"
        apply (rule exI [of _ e], rule exI [of _ h2])
        using reg ins eff2 by (simp only: simp_thms)
      then show ?thesis
        by (simp only: cond if_False Some option.case)
    qed
  qed
qed

text \<open>
  \<open>Insert\<close> on the state that holds \<open>S1 \<rightarrow> S\<bullet>\<close>, and on the start state, whose third
  item is \<open>S \<rightarrow> \<bullet>eps\<close>.
\<close>

theorem Insert_completed_item_witness:
  "(\<exists>h'. Insert demo_Vocabulary heap0 table0 state_accept demo_Grammar = Inr h' \<and>
      ActionTable_get h' (Some 0) 1 ''$'' = Some \<lparr>Action.Type = ACCEPT, Number = 0\<rparr>) \<and>
   (\<exists>h'. Insert demo_Vocabulary heap0 table0 state_start demo_Grammar = Inr h' \<and>
      ActionTable_get h' (Some 0) 0 ''$'' = Some \<lparr>Action.Type = REDUCE, Number = 2\<rparr> \<and>
      ActionTable_get h' (Some 0) 0 ''a'' = Some \<lparr>Action.Type = SHIFT, Number = 2\<rparr> \<and>
      GotoTable_get h' (Some 0) 0 ''S'' = Some 1)"
  using Insert_completed_item [where state = state_accept and xs = "[]" and item = item_accept
      and ys = "[]" and V = demo_Vocabulary and t = table0 and g = demo_Grammar and h = heap0
      and err = None and ?h1.0 = heap0 and a = 0]
    Insert_completed_item [where state = state_start
      and xs = "[\<lparr>Production = production_start, Dot = 0, Lookahead = ''$''\<rparr>,
                \<lparr>Production = production_shift, Dot = 0, Lookahead = ''$''\<rparr>]"
      and item = item_eps and ys = "[]" and V = demo_Vocabulary and t = table0
      and g = demo_Grammar and h = heap0 and a = 0
      and err = "fst (projr (Insert_items demo_Vocabulary table0 state_start demo_Grammar
          [\<lparr>Production = production_start, Dot = 0, Lookahead = ''$''\<rparr>,
           \<lparr>Production = production_shift, Dot = 0, Lookahead = ''$''\<rparr>] (None, heap0)))"
      and ?h1.0 = "snd (projr (Insert_items demo_Vocabulary table0 state_start demo_Grammar
          [\<lparr>Production = production_start, Dot = 0, Lookahead = ''$''\<rparr>,
           \<lparr>Production = production_shift, Dot = 0, Lookahead = ''$''\<rparr>] (None, heap0)))"]
  by (simp add: state_accept_def state_start_def item_accept_def item_eps_def table0_def heap0_def
      table_eval demo_eval)

section \<open>Items with epsilon after the dot\<close>

text \<open>
  C2, as stated: an item with epsilon after the dot adds no entry to ACTION or GOTO.
  It fails: \<open>BuildTable\<close> on the one state whose one item is \<open>S \<rightarrow> \<bullet>eps\<close> with
  lookahead \<open>$\<close> leaves REDUCE 2 at (0, \<open>$\<close>) in a table that it made empty.
\<close>

theorem BuildTable_epsilon_item_reduces:
  "IsEpsilon demo_Vocabulary (Body (Production item_eps) ! nat (sint (Dot item_eps))) \<and>
   State.Items state_eps = [item_eps] \<and>
   (case built_eps of
      Inl _ \<Rightarrow> False
    | Inr (h, p) \<Rightarrow>
        (case Table p of
           None \<Rightarrow> False
         | Some t \<Rightarrow>
             ActionTable_get h (ActionTable t) 0 ''$'' =
               Some \<lparr>Action.Type = REDUCE, Number = 2\<rparr>))"
  by (simp add: built_eps_def state_eps_def item_eps_def table_eval demo_eval)

text \<open>
  C2, amended. The test for epsilon is part of the test for a completed item, so the
  \<open>continue\<close> of the other branch is never reached. For a state and an item in it with
  epsilon after the dot, when \<open>Insert\<close> has gone through the items before it without
  a panic: \<open>Insert\<close> registers, in ACTION, ACCEPT at (state, TERMINATE) or REDUCE at
  (state, lookahead) for the item, as for an item with the dot at the end, and goes on
  from the store this registration left. The registration adds nothing to the GOTO
  table and is not a SHIFT. Right after it the slot holds the entry, unless the
  registration returned a conflict and left the store as it was. What the slot holds
  when \<open>Insert\<close> is through is up to the items that follow.
\<close>

theorem Insert_epsilon_item:
  assumes items: "State.Items state = xs @ item # ys"
    and before: "Insert_items V t state g xs (None, h) = Inr (err, h1)"
    and eps: "0 \<le> sint (Dot item)"
      "sint (Dot item) < int (length (Body (Production item)))"
      "IsEpsilon V (Body (Production item) ! nat (sint (Dot item)))"
    and tab: "ActionTable t = Some a"
    and idx: "(Lookahead item = TERMINATE V \<and>
               Equals (Production item) (AugmentedProduction g)) \<or>
              GetIndex g (Production item) = Some n"
  shows "\<exists>e h2 act x.
     (act, x) =
       (if Lookahead item = TERMINATE V \<and> Equals (Production item) (AugmentedProduction g)
        then (\<lparr>Action.Type = ACCEPT, Number = 0\<rparr>, TERMINATE V)
        else (\<lparr>Action.Type = REDUCE, Number = n\<rparr>, Lookahead item)) \<and>
     ActionTable_Register h1 (Some a) (Index state) act x = Inr (e, h2) \<and>
     Insert V h t state g =
       (case Insert_items V t state g ys (e, h2) of
          Inl p \<Rightarrow> Inl p
        | Inr (e', h') \<Rightarrow> Inr h') \<and>
     GotoTables h2 = GotoTables h1 \<and> GotoRows h2 = GotoRows h1 \<and>
     ((e = None \<and> ActionTable_get h2 (Some a) (Index state) x = Some act) \<or>
      (e \<noteq> None \<and> h2 = h1))"
proof -
  from Insert_item_epsilon_effect [OF eps tab idx, of state err h1]
  obtain e h2 act x where
    pair: "(act, x) =
       (if Lookahead item = TERMINATE V \<and> Equals (Production item) (AugmentedProduction g)
        then (\<lparr>Action.Type = ACCEPT, Number = 0\<rparr>, TERMINATE V)
        else (\<lparr>Action.Type = REDUCE, Number = n\<rparr>, Lookahead item))"
    and same: "Insert_item V t state g item (err, h1) =
       ActionTable_Register h1 (Some a) (Index state) act x"
    and step: "Insert_item V t state g item (err, h1) = Inr (e, h2)"
    and frame: "GotoTables h2 = GotoTables h1" "GotoRows h2 = GotoRows h1"
    and eff: "(e = None \<and> ActionTable_get h2 (Some a) (Index state) x = Some act) \<or>
      (e \<noteq> None \<and> h2 = h1)"
    by blast
  have reg: "ActionTable_Register h1 (Some a) (Index state) act x = Inr (e, h2)"
    using same step by simp
  have ins: "Insert V h t state g =
      (case Insert_items V t state g ys (e, h2) of
         Inl p \<Rightarrow> Inl p
       | Inr (e', h') \<Rightarrow> Inr h')"
    using Insert_at_item [OF items before] step by simp
  show ?thesis
    apply (rule exI [of _ e], rule exI [of _ h2], rule exI [of _ act], rule exI [of _ x])
    using pair reg ins frame eff by (simp only: simp_thms)
qed

text \<open>
  The state whose first item is \<open>S \<rightarrow> \<bullet>eps\<close> with lookahead \<open>a\<close>: its registration
  puts REDUCE 2 at (0, \<open>a\<close>), and the shift item after it leaves SHIFT 1 there at the end
  of \<open>Insert\<close>.
\<close>

theorem Insert_epsilon_item_witness:
  "\<exists>h2. ActionTable_Register heap0 (Some 0) 0 \<lparr>Action.Type = REDUCE, Number = 2\<rparr> ''a'' =
           Inr (None, h2) \<and>
         GotoTables h2 = GotoTables heap0 \<and> GotoRows h2 = GotoRows heap0 \<and>
         ActionTable_get h2 (Some 0) 0 ''a'' = Some \<lparr>Action.Type = REDUCE, Number = 2\<rparr> \<and>
         (\<exists>h'. Insert demo_Vocabulary heap0 table0 state_reduce_shift demo_Grammar = Inr h' \<and>
            ActionTable_get h' (Some 0) 0 ''a'' = Some \<lparr>Action.Type = SHIFT, Number = 1\<rparr>)"
  using Insert_epsilon_item [where state = state_reduce_shift and xs = "[]"
      and item = "\<lparr>Production = production_eps, Dot = 0, Lookahead = ''a''\<rparr>"
      and ys = "[\<lparr>Production = production_shift, Dot = 0, Lookahead = ''$''\<rparr>]"
      and V = demo_Vocabulary and t = table0 and g = demo_Grammar and h = heap0
      and err = None and ?h1.0 = heap0 and a = 0 and n = 2]
  by (simp add: state_reduce_shift_def table0_def heap0_def table_eval demo_eval)

section \<open>Copy\<close>

















section \<open>Facts about the rounding\<close>

lemma sint_range64: "- (2 ^ 63) \<le> sint (n :: go_int) \<and> sint n < 2 ^ 63"
  using sint_ge [of n] sint_lt [of n] by simp

lemma sint_word_of_int64:
  "- (2 ^ 63) \<le> k \<Longrightarrow> k < 2 ^ 63 \<Longrightarrow> sint (word_of_int k :: go_int) = k"
  by (simp add: int_word_sint)

lemma sdiv4_nonneg: "0 \<le> k \<Longrightarrow> (k::int) sdiv 4 = k div 4"
  by (simp add: signed_divide_int_def sgn_if)

lemma sdiv4_neg: "k < 0 \<Longrightarrow> (k::int) sdiv 4 = - ((- k) div 4)"
  by (simp add: signed_divide_int_def sgn_if)

lemma sdiv4_times4_range:
  "- (2 ^ 63) \<le> (k::int) \<Longrightarrow> k < 2 ^ 63 \<Longrightarrow>
   - (2 ^ 63) \<le> k sdiv 4 * 4 \<and> k sdiv 4 * 4 < 2 ^ 63"
  by (cases "0 \<le> k") (simp_all add: sdiv4_nonneg sdiv4_neg, presburger+)

lemma sdiv4_times4_eq: "((k::int) sdiv 4 * 4 = k) = (4 dvd k)"
  by (cases "0 \<le> k") (simp_all add: sdiv4_nonneg sdiv4_neg, presburger+)

lemma quot4_exact: "(go_quot n 4 * 4 = n) = (4 dvd sint n)"
proof -
  let ?q = "sint n sdiv 4 * 4"
  have r: "- (2 ^ 63) \<le> ?q \<and> ?q < 2 ^ 63"
    using sdiv4_times4_range [of "sint n"] sint_range64 [of n] by simp
  have q: "go_quot n 4 * 4 = (word_of_int ?q :: go_int)"
    by (simp add: go_quot_def)
  have s: "sint (word_of_int ?q :: go_int) = ?q"
    using r by (intro sint_word_of_int64) simp_all
  have "((word_of_int ?q :: go_int) = n) = (?q = sint n)"
  proof
    assume "(word_of_int ?q :: go_int) = n"
    then have "sint (word_of_int ?q :: go_int) = sint n" by (rule arg_cong)
    with s show "?q = sint n" by (simp only:)
  next
    assume "?q = sint n"
    then have "(word_of_int ?q :: go_int) = word_of_int (sint n)" by (rule arg_cong)
    then show "(word_of_int ?q :: go_int) = n" by simp
  qed
  with q show ?thesis
    by (simp only: sdiv4_times4_eq)
qed

lemma advance_eq:
  "advance c n = c + word_of_int (sint n sdiv 4 + (if 4 dvd sint n then 0 else 1))"
  by (simp add: advance_def Let_def quot4_exact) (simp add: go_quot_def)

lemma ceiling_quarter:
  "0 \<le> k \<Longrightarrow> \<lceil>real_of_int k / 4\<rceil> = k sdiv 4 + (if 4 dvd k then 0 else 1)"
proof -
  assume k: "0 \<le> k"
  have "\<lceil>real_of_int k / 4\<rceil> = - (- k div 4)"
    using ceiling_divide_eq_div [of k 4] by simp
  also have "\<dots> = k div 4 + (if 4 dvd k then 0 else 1)"
    by presburger
  finally show ?thesis
    using k by (simp add: sdiv4_nonneg)
qed

lemma advance_ceiling:
  "0 \<le> sint n \<Longrightarrow> advance c n = c + word_of_int \<lceil>real_of_int (sint n) / 4\<rceil>"
  by (simp only: advance_eq ceiling_quarter)


lemmas symbol_eval =
  empty_SymbolHeap_def new_item_def variable_item_def array_item_def new_store_def alloc_def
  put_def NewSymbolTable_def EnterScope_def ExitScope_def Register_def Lookup_def TempAddr_def
  advance_def go_quot_def signed_divide_int_def len_def initialAddr_def constantAddr0_def
  SymbolTableItemTypeVariable_def SymbolTableItemTypeArray_def Let_def


lemma Type_distinct:
  "SymbolTableItemTypeArray \<noteq> SymbolTableItemTypeVariable"
  "SymbolTableItemTypeVariable \<noteq> SymbolTableItemTypeArray"
  by (simp_all add: SymbolTableItemTypeArray_def SymbolTableItemTypeVariable_def)

lemma sint_mult64:
  "- (2 ^ 63) \<le> sint (a::go_int) * sint b \<Longrightarrow> sint a * sint b < 2 ^ 63 \<Longrightarrow>
   sint (a * b) = sint a * sint b"
  by (simp add: sint_word_mult signed_take_bit_int_eq_self)

lemma Register_success:
  assumes "Register h st (Some p) = Inr (None, st', h')"
  shows "0 < sint (VariableSize (cells (SymbolTableItems h) p)) \<and>
     (SymbolTableItem.Type (cells (SymbolTableItems h) p) = SymbolTableItemTypeVariable \<longrightarrow>
        Address (cells (SymbolTableItems h') p) = addrCounter st \<and>
        addrCounter st' = advance (addrCounter st) (VariableSize (cells (SymbolTableItems h) p))) \<and>
     (SymbolTableItem.Type (cells (SymbolTableItems h) p) = SymbolTableItemTypeArray \<longrightarrow>
        Address (cells (SymbolTableItems h') p) = addrCounter st \<and>
        addrCounter st' =
          advance (addrCounter st)
            (VariableSize (cells (SymbolTableItems h) p) * ArraySize (cells (SymbolTableItems h) p)))"
  using assms
  by (auto simp: Register_def Let_def put_def Type_distinct split: option.splits if_splits)

lemma sint_len:
  assumes "length xs < 2 ^ 63"
  shows "sint (len xs) = int (length xs)"
proof -
  have "int (length xs) < 2 ^ 63"
    using assms by (metis of_nat_less_iff of_nat_numeral of_nat_power)
  moreover have "len xs = (word_of_int (int (length xs)) :: go_int)"
    by (simp add: len_def)
  ultimately show ?thesis
    using sint_word_of_int64 [of "int (length xs)"] by simp
qed

section \<open>Facts about sequences of calls\<close>

lemma words_eq: "0 \<le> k \<Longrightarrow> k sdiv 4 + (if 4 dvd k then 0 else 1) = words k"
  by (simp add: sdiv4_nonneg words_def) presburger

lemma words_pos: "0 < k \<Longrightarrow> 0 < words k"
  by (simp add: words_def)

lemma advance_sint:
  assumes n: "0 < sint n" and fit: "sint c + words (sint n) < 2 ^ 63"
  shows "sint (advance c n) = sint c + words (sint n)"
proof -
  let ?k = "sint c + words (sint n)"
  have lo: "- (2 ^ 63) \<le> ?k"
    using sint_range64 [of c] words_pos [OF n] by simp
  have "advance c n = c + word_of_int (words (sint n))"
    using n by (simp only: advance_eq words_eq [of "sint n", OF less_imp_le])
  also have "\<dots> = (word_of_int ?k :: go_int)"
    by simp
  finally have "sint (advance c n) = sint (word_of_int ?k :: go_int)"
    by (rule arg_cong)
  also have "\<dots> = ?k"
    using lo fit by (rule sint_word_of_int64)
  finally show ?thesis .
qed

lemma chained_snoc:
  assumes "chained gs (sint a)" and "sint a < sint e"
  shows "chained (gs @ [(a, e)]) (sint e)"
  using assms by (force simp: chained_def sorted_wrt_append)

lemma chained_mono: "chained gs b \<Longrightarrow> b \<le> b' \<Longrightarrow> chained gs b'"
  by (force simp: chained_def)


lemma Register_result:
  assumes "Register h st (Some p) = Inr (e, st', h')"
  shows "(\<forall>q. VariableSize (cells (SymbolTableItems h') q) = VariableSize (cells (SymbolTableItems h) q) \<and>
          ArraySize (cells (SymbolTableItems h') q) = ArraySize (cells (SymbolTableItems h) q) \<and>
          SymbolTableItem.Type (cells (SymbolTableItems h') q) =
            SymbolTableItem.Type (cells (SymbolTableItems h) q)) \<and>
     (e \<noteq> None \<longrightarrow> addrCounter st' = addrCounter st) \<and>
     (e = None \<longrightarrow>
        0 < sint (VariableSize (cells (SymbolTableItems h) p)) \<and>
        (if SymbolTableItem.Type (cells (SymbolTableItems h) p) = SymbolTableItemTypeVariable
         then Address (cells (SymbolTableItems h') p) = addrCounter st \<and>
              addrCounter st' = advance (addrCounter st) (VariableSize (cells (SymbolTableItems h) p))
         else if SymbolTableItem.Type (cells (SymbolTableItems h) p) = SymbolTableItemTypeArray
         then Address (cells (SymbolTableItems h') p) = addrCounter st \<and>
              addrCounter st' =
                advance (addrCounter st)
                  (VariableSize (cells (SymbolTableItems h) p) *
                   ArraySize (cells (SymbolTableItems h) p))
         else addrCounter st' = addrCounter st))"
  using assms
  by (auto simp: Register_def Let_def put_def Type_distinct split: option.splits if_splits)

lemma Register_Some_total: "\<exists>e st' h'. Register h st (Some p) = Inr (e, st', h')"
  by (auto simp: Register_def Let_def split: option.splits)

lemma same_items_trans:
  assumes "same_items h0 h"
    and "\<forall>q. VariableSize (cells (SymbolTableItems h') q) = VariableSize (cells (SymbolTableItems h) q) \<and>
          ArraySize (cells (SymbolTableItems h') q) = ArraySize (cells (SymbolTableItems h) q) \<and>
          SymbolTableItem.Type (cells (SymbolTableItems h') q) =
            SymbolTableItem.Type (cells (SymbolTableItems h) q)"
  shows "same_items h0 h'"
  using assms by (simp add: same_items_def)

lemma call_step_Register:
  assumes d: "demand h0 (CallRegister (Some p)) = Some d" and fit: "c + d < 2 ^ 63"
    and same: "same_items h0 h"
    and ch: "chained gs (sint (addrCounter st))" and le: "sint (addrCounter st) \<le> c"
  shows "\<exists>h' st' gs'. call_step (CallRegister (Some p)) (h, st, gs) = Inr (h', st', gs') \<and>
     same_items h0 h' \<and> chained gs' (sint (addrCounter st')) \<and> sint (addrCounter st') \<le> c + d"
proof -
  let ?it = "cells (SymbolTableItems h) p"
  obtain e st' h' where reg: "Register h st (Some p) = Inr (e, st', h')"
    using Register_Some_total by blast
  note r = Register_result [OF reg]
  have same': "same_items h0 h'"
    using same r by (intro same_items_trans [of h0 h h']) simp_all
  have it0: "VariableSize (cells (SymbolTableItems h0) p) = VariableSize ?it"
    "ArraySize (cells (SymbolTableItems h0) p) = ArraySize ?it"
    "SymbolTableItem.Type (cells (SymbolTableItems h0) p) = SymbolTableItem.Type ?it"
    using same by (simp_all add: same_items_def)
  have ty': "SymbolTableItem.Type (cells (SymbolTableItems h') p) = SymbolTableItem.Type ?it"
    using r by simp
  have d0: "0 \<le> d"
    using d words_pos [of "sint (VariableSize ?it)"]
      words_pos [of "sint (VariableSize ?it) * sint (ArraySize ?it)"]
    by (auto simp: Let_def it0 split: if_splits)
  show ?thesis
  proof (cases e)
    case (Some err)
    then have "call_step (CallRegister (Some p)) (h, st, gs) = Inr (h', st', gs)"
      using reg by simp
    moreover have "addrCounter st' = addrCounter st"
      using r Some by simp
    ultimately show ?thesis
      using same' ch le d0 by auto
  next
    case None
    then have pos: "0 < sint (VariableSize ?it)"
      using r by simp
    consider (var) "SymbolTableItem.Type ?it = SymbolTableItemTypeVariable"
      | (arr) "SymbolTableItem.Type ?it \<noteq> SymbolTableItemTypeVariable"
          "SymbolTableItem.Type ?it = SymbolTableItemTypeArray"
      | (other) "SymbolTableItem.Type ?it \<noteq> SymbolTableItemTypeVariable"
          "SymbolTableItem.Type ?it \<noteq> SymbolTableItemTypeArray"
      by blast
    then show ?thesis
    proof cases
      case var
      have dv: "d = words (sint (VariableSize ?it))"
        using d pos var by (simp add: Let_def it0)
      have adr: "Address (cells (SymbolTableItems h') p) = addrCounter st"
        and cnt: "addrCounter st' = advance (addrCounter st) (VariableSize ?it)"
        using r None var by simp_all
      have s: "sint (addrCounter st') = sint (addrCounter st) + d"
        unfolding cnt dv using pos fit le dv by (intro advance_sint) simp_all
      have step: "call_step (CallRegister (Some p)) (h, st, gs) =
          Inr (h', st', gs @ [(addrCounter st, addrCounter st')])"
        using reg None var ty' adr by (simp add: has_address_def)
      have "sint (addrCounter st) < sint (addrCounter st')"
        using s words_pos [OF pos] dv by simp
      then have "chained (gs @ [(addrCounter st, addrCounter st')]) (sint (addrCounter st'))"
        using ch by (intro chained_snoc)
      then show ?thesis
        using step same' s le by auto
    next
      case arr
      have len: "0 < sint (ArraySize ?it)"
        and small: "sint (VariableSize ?it) * sint (ArraySize ?it) < 2 ^ 63"
        and dv: "d = words (sint (VariableSize ?it) * sint (ArraySize ?it))"
        using d pos arr by (simp_all add: Let_def it0 split: if_splits)
      have prod: "0 < sint (VariableSize ?it) * sint (ArraySize ?it)"
        using pos len by simp
      then have sm: "sint (VariableSize ?it * ArraySize ?it) =
          sint (VariableSize ?it) * sint (ArraySize ?it)"
        using small by (intro sint_mult64) simp_all
      have adr: "Address (cells (SymbolTableItems h') p) = addrCounter st"
        and cnt: "addrCounter st' = advance (addrCounter st) (VariableSize ?it * ArraySize ?it)"
        using r None arr by simp_all
      have s: "sint (addrCounter st') = sint (addrCounter st) + d"
        unfolding cnt dv sm [symmetric] using prod fit le dv sm by (intro advance_sint) simp_all
      have step: "call_step (CallRegister (Some p)) (h, st, gs) =
          Inr (h', st', gs @ [(addrCounter st, addrCounter st')])"
        using reg None arr ty' adr by (simp add: has_address_def)
      have "sint (addrCounter st) < sint (addrCounter st')"
        using s words_pos [OF prod] dv by simp
      then have "chained (gs @ [(addrCounter st, addrCounter st')]) (sint (addrCounter st'))"
        using ch by (intro chained_snoc)
      then show ?thesis
        using step same' s le by auto
    next
      case other
      have step: "call_step (CallRegister (Some p)) (h, st, gs) = Inr (h', st', gs)"
        using reg None other ty' by (simp add: has_address_def)
      moreover have "addrCounter st' = addrCounter st"
        using r None other by simp
      ultimately show ?thesis
        using same' ch le d0 by auto
    qed
  qed
qed


lemma call_step_inv:
  assumes d: "demand h0 x = Some d" and fit: "c + d < 2 ^ 63"
    and same: "same_items h0 h"
    and ch: "chained gs (sint (addrCounter st))" and le: "sint (addrCounter st) \<le> c"
  shows "\<exists>h' st' gs'. call_step x (h, st, gs) = Inr (h', st', gs') \<and>
     same_items h0 h' \<and> chained gs' (sint (addrCounter st')) \<and> sint (addrCounter st') \<le> c + d"
proof (cases x)
  case CallEnterScope
  then show ?thesis
    using d same ch le
    by (auto simp: EnterScope_def Let_def alloc_def same_items_def split: option.splits)
next
  case CallExitScope
  then show ?thesis
    using d same ch le by (auto simp: ExitScope_def split: option.splits)
next
  case (CallRegister item)
  with d obtain p where "item = Some p"
    by (cases item) simp_all
  with CallRegister call_step_Register [OF _ fit same ch le, of p] d show ?thesis
    by simp
next
  case (CallTempAddr n)
  with d have pos: "0 < sint n" and dv: "d = words (sint n)"
    by (simp_all split: if_splits)
  let ?c' = "advance (addrCounter st) n"
  have s: "sint ?c' = sint (addrCounter st) + d"
    unfolding dv using pos fit le dv by (intro advance_sint) simp_all
  have "sint (addrCounter st) < sint ?c'"
    using s words_pos [OF pos] dv by simp
  then have "chained (gs @ [(addrCounter st, ?c')]) (sint ?c')"
    using ch by (intro chained_snoc)
  then show ?thesis
    using CallTempAddr same s le by (simp add: TempAddr_def)
qed

lemma calls_inv:
  "fits h0 c cs \<Longrightarrow> same_items h0 h \<Longrightarrow> chained gs (sint (addrCounter st)) \<Longrightarrow>
   sint (addrCounter st) \<le> c \<Longrightarrow>
   \<exists>h' st' gs'. calls cs (h, st, gs) = Inr (h', st', gs') \<and> chained gs' (sint (addrCounter st'))"
proof (induction cs arbitrary: c h st gs)
  case Nil
  then show ?case by simp
next
  case (Cons x xs)
  from Cons.prems(1) obtain d where d: "demand h0 x = Some d" and fit: "c + d < 2 ^ 63"
    and rest: "fits h0 (c + d) xs"
    by (auto split: option.splits)
  from call_step_inv [OF d fit Cons.prems(2) Cons.prems(3) Cons.prems(4)]
  obtain h1 st1 gs1 where step: "call_step x (h, st, gs) = Inr (h1, st1, gs1)"
    and inv: "same_items h0 h1" "chained gs1 (sint (addrCounter st1))"
      "sint (addrCounter st1) \<le> c + d"
    by blast
  from Cons.IH [OF rest inv] step show ?case
    by simp
qed

section \<open>Scopes\<close>

text \<open>
  C8. \<open>ExitScope\<close> with no scope open returns the no-scope error and leaves the table
  as it is; with a scope open and an exit hook that returns an error it returns that
  error and leaves the table, the current scope with it, as it is; with a scope open
  and a hook that returns nil, or no hook, it returns nil and the current scope is the
  parent of the scope that was current.
\<close>

theorem ExitScope_cases:
  "(CurrentScope st = None \<longrightarrow> ExitScope h st = (Some NoScopeToExit, st)) \<and>
   (\<forall>c f e. CurrentScope st = Some c \<and> ExitFunction st = Some f \<and> f h c = Some e \<longrightarrow>
      ExitScope h st = (Some e, st)) \<and>
   (\<forall>c. CurrentScope st = Some c \<and>
        (ExitFunction st = None \<or> (\<exists>f. ExitFunction st = Some f \<and> f h c = None)) \<longrightarrow>
      ExitScope h st = (None, st\<lparr>CurrentScope := Parent (cells (Scopes h) c)\<rparr>))"
  by (auto simp: ExitScope_def)

text \<open>
  No scope open; one scope open under a failing exit hook; the inner of two scopes
  open and no hook.
\<close>

theorem ExitScope_cases_witness:
  "fst (ExitScope empty_SymbolHeap hooked_table) = Some NoScopeToExit \<and>
   CurrentScope (snd (ExitScope empty_SymbolHeap hooked_table)) = None \<and>
   CurrentScope (fst hooked_state) = Some 0 \<and>
   fst (ExitScope (snd hooked_state) (fst hooked_state)) = Some (HookFailure ''hook'') \<and>
   CurrentScope (snd (ExitScope (snd hooked_state) (fst hooked_state))) = Some 0 \<and>
   CurrentScope (fst shadow_state) = Some 1 \<and>
   fst (ExitScope (snd shadow_state) (fst shadow_state)) = None \<and>
   CurrentScope (snd (ExitScope (snd shadow_state) (fst shadow_state))) = Some 0"
  using ExitScope_cases [of hooked_table empty_SymbolHeap]
    ExitScope_cases [of "fst hooked_state" "snd hooked_state"]
    ExitScope_cases [of "fst shadow_state" "snd shadow_state"]
  by (simp add: hooked_table_def hooked_state_def failing_hook_def shadow_state_def
      shadow_heap0_def symbol_eval)

text \<open>
  C9. Whatever the enter hook answers, \<open>EnterScope\<close> returns the hook's answer (its
  error, when it fails) with the new scope in place: it is a new object of the store,
  the current scope, the last entry of the history, at the position its id names; its
  parent is the scope that was current, its level 0 when none was and one more than
  that scope's level otherwise. Nothing else of the store or the counter changes.
\<close>

theorem EnterScope_creates_scope:
  assumes "EnterScope h st = (err, st', h')"
  shows "err = (case EnterFunction st of None \<Rightarrow> None | Some f \<Rightarrow> f h' (used (Scopes h))) \<and>
     CurrentScope st' = Some (used (Scopes h)) \<and>
     LegacyScopes st' = LegacyScopes st @ [used (Scopes h)] \<and>
     LegacyScopes st' ! length (LegacyScopes st) = used (Scopes h) \<and>
     used (Scopes h') = Suc (used (Scopes h)) \<and>
     (\<forall>b. b \<noteq> used (Scopes h) \<longrightarrow> cells (Scopes h') b = cells (Scopes h) b) \<and>
     SymbolTableItems h' = SymbolTableItems h \<and>
     Parent (cells (Scopes h') (used (Scopes h))) = CurrentScope st \<and>
     Level (cells (Scopes h') (used (Scopes h))) =
       (case CurrentScope st of None \<Rightarrow> 0 | Some c \<Rightarrow> Level (cells (Scopes h) c) + 1) \<and>
     ID (cells (Scopes h') (used (Scopes h))) = len (LegacyScopes st) \<and>
     (length (LegacyScopes st) < 2 ^ 63 \<longrightarrow>
        sint (ID (cells (Scopes h') (used (Scopes h)))) = int (length (LegacyScopes st))) \<and>
     Scope.Items (cells (Scopes h') (used (Scopes h))) = Map.empty \<and>
     addrCounter st' = addrCounter st"
  using assms
  by (auto simp: EnterScope_def Let_def alloc_def sint_len split: option.splits prod.splits)

text \<open>Two scopes entered under an enter hook that fails both times.\<close>

theorem EnterScope_creates_scope_witness:
  "(case EnterScope empty_SymbolHeap hooked_table of
      (err, st, h) \<Rightarrow>
        err = Some (HookFailure ''hook'') \<and> CurrentScope st = Some 0 \<and> LegacyScopes st = [0] \<and>
        Parent (cells (Scopes h) 0) = None \<and> Level (cells (Scopes h) 0) = 0 \<and>
        ID (cells (Scopes h) 0) = 0 \<and>
        (case EnterScope h st of
           (err', st', h') \<Rightarrow>
             err' = Some (HookFailure ''hook'') \<and> CurrentScope st' = Some 1 \<and>
             LegacyScopes st' = [0, 1] \<and> Parent (cells (Scopes h') 1) = Some 0 \<and>
             Level (cells (Scopes h') 1) = 1 \<and> ID (cells (Scopes h') 1) = 1))"
  using EnterScope_creates_scope [of empty_SymbolHeap hooked_table
      "fst (EnterScope empty_SymbolHeap hooked_table)"
      "fst (snd (EnterScope empty_SymbolHeap hooked_table))"
      "snd (snd (EnterScope empty_SymbolHeap hooked_table))"]
  by (simp add: hooked_table_def failing_hook_def symbol_eval)

section \<open>Register and Lookup\<close>

text \<open>
  C10. When \<open>Register\<close> returns an error, the table and the store are the ones it was
  given: no entry in the scope's map, the counter where it was, the item's address
  untouched; and the error is one of the three: no open scope, a name the current
  scope already declares, a size that is not positive. Each of the three conditions
  does return its error.
\<close>

theorem Register_error_leaves_state:
  "(Register h st item = Inr (Some e, st', h') \<longrightarrow>
      st' = st \<and> h' = h \<and>
      (e = NoScopeToRegister \<or> (\<exists>n. e = ItemAlreadyExists n) \<or> (\<exists>n. e = InvalidVariableSize n))) \<and>
   (CurrentScope st = None \<longrightarrow> Register h st item = Inr (Some NoScopeToRegister, st, h)) \<and>
   (\<forall>c p. CurrentScope st = Some c \<and> item = Some p \<and>
      Scope.Items (cells (Scopes h) c) (Variable (cells (SymbolTableItems h) p)) \<noteq> None \<longrightarrow>
      Register h st item =
        Inr (Some (ItemAlreadyExists (Variable (cells (SymbolTableItems h) p))), st, h)) \<and>
   (\<forall>c p. CurrentScope st = Some c \<and> item = Some p \<and>
      Scope.Items (cells (Scopes h) c) (Variable (cells (SymbolTableItems h) p)) = None \<and>
      sint (VariableSize (cells (SymbolTableItems h) p)) \<le> 0 \<longrightarrow>
      Register h st item =
        Inr (Some (InvalidVariableSize (Variable (cells (SymbolTableItems h) p))), st, h))"
  by (auto simp: Register_def Let_def split: option.splits if_splits)

text \<open>
  Without a scope; with the item \<open>e\<close> of size 0; and with \<open>a\<close> a second time in the
  scope that declares it.
\<close>

theorem Register_error_leaves_state_witness:
  "(case Register sizes_heap0 (NewSymbolTable None None) (Some 0) of
      Inr (Some e, st, h) \<Rightarrow>
        e = NoScopeToRegister \<and> addrCounter st = initialAddr \<and>
        Address (cells (SymbolTableItems h) 0) = 0
    | _ \<Rightarrow> False) \<and>
   (case Register (snd sizes_state) (fst sizes_state) (Some 4) of
      Inr (Some e, st, h) \<Rightarrow>
        e = InvalidVariableSize ''e'' \<and> addrCounter st = initialAddr \<and>
        Scope.Items (cells (Scopes h) 0) ''e'' = None \<and>
        Address (cells (SymbolTableItems h) 4) = 0
    | _ \<Rightarrow> False) \<and>
   (case Register_all [0] sizes_state of
      (st1, h1) \<Rightarrow>
        Scope.Items (cells (Scopes h1) 0) ''a'' = Some 0 \<and>
        (case Register h1 st1 (Some 0) of
           Inr (Some e, st, h) \<Rightarrow>
             e = ItemAlreadyExists ''a'' \<and> addrCounter st = addrCounter st1 \<and>
             Address (cells (SymbolTableItems h) 0) = Address (cells (SymbolTableItems h1) 0)
         | _ \<Rightarrow> False))"
  using Register_error_leaves_state [of sizes_heap0 "NewSymbolTable None None" "Some 0"]
    Register_error_leaves_state [of "snd sizes_state" "fst sizes_state" "Some 4"]
    Register_error_leaves_state [of "snd (Register_all [0] sizes_state)"
      "fst (Register_all [0] sizes_state)" "Some 0"]
  by (simp add: Register_all_def sizes_state_def sizes_heap0_def symbol_eval)

text \<open>
  C7. \<open>Register\<close> returns the already-exists error exactly when a scope is open and
  its map, the current scope's alone, holds the item's name. A name that the current
  scope does not hold is registered without error when the size is positive, whatever
  the enclosing scopes declare, and \<open>Lookup\<close> of the name then returns the registered
  item with \<open>findInCurrentScope\<close> true.
\<close>

theorem Register_duplicate_and_shadowing:
  "((\<exists>n st' h'. Register h st item = Inr (Some (ItemAlreadyExists n), st', h')) \<longleftrightarrow>
    (\<exists>c p. CurrentScope st = Some c \<and> item = Some p \<and>
       Scope.Items (cells (Scopes h) c) (Variable (cells (SymbolTableItems h) p)) \<noteq> None)) \<and>
   (\<forall>c p. CurrentScope st = Some c \<and> item = Some p \<and>
      Scope.Items (cells (Scopes h) c) (Variable (cells (SymbolTableItems h) p)) = None \<and>
      0 < sint (VariableSize (cells (SymbolTableItems h) p)) \<longrightarrow>
      (\<exists>st' h'. Register h st item = Inr (None, st', h') \<and>
         Lookup h' st' (Variable (cells (SymbolTableItems h) p)) = Some (Some p, True, None)))"
  by (auto simp: Register_def Lookup_def Let_def put_def Lookup_from.simps
      split: option.splits if_splits)

text \<open>
  \<open>x\<close> is declared in the outer scope and found there from the inner one; the second
  \<open>x\<close> is registered in the inner scope, found there, and refused when offered again.
\<close>

theorem Register_duplicate_and_shadowing_witness:
  "Scope.Items (cells (Scopes (snd shadow_state)) 0) ''x'' = Some 0 \<and>
   Parent (cells (Scopes (snd shadow_state)) 1) = Some 0 \<and>
   CurrentScope (fst shadow_state) = Some 1 \<and>
   Lookup (snd shadow_state) (fst shadow_state) ''x'' = Some (Some 0, False, None) \<and>
   (\<exists>st' h'. Register (snd shadow_state) (fst shadow_state) (Some 1) = Inr (None, st', h') \<and>
      Lookup h' st' ''x'' = Some (Some 1, True, None) \<and>
      Register h' st' (Some 0) = Inr (Some (ItemAlreadyExists ''x''), st', h'))"
  using Register_duplicate_and_shadowing [of "snd shadow_state" "fst shadow_state" "Some 1"]
  by (simp add: shadow_state_def shadow_heap0_def symbol_eval Lookup_from.simps)

section \<open>Addresses\<close>

text \<open>
  C5, as stated, has an array advance the counter by the ceiling of
  \<open>s * arrayLength / 4\<close>. \<open>Register\<close> does not look at the sign of \<open>ArraySize\<close>, and
  Go's division truncates towards zero: an array of -1 elements of size 1 registers
  without error and moves the counter by 1, where the ceiling of -1/4 is 0.
\<close>

theorem Register_negative_array_length:
  "CurrentScope (fst sizes_state) \<noteq> None \<and>
   SymbolTableItem.Type (cells (SymbolTableItems (snd sizes_state)) 3) = SymbolTableItemTypeArray \<and>
   sint (VariableSize (cells (SymbolTableItems (snd sizes_state)) 3)) = 1 \<and>
   sint (ArraySize (cells (SymbolTableItems (snd sizes_state)) 3)) = - 1 \<and>
   \<lceil>real_of_int (1 * (- 1)) / 4\<rceil> = 0 \<and>
   (case Register (snd sizes_state) (fst sizes_state) (Some 3) of
      Inr (None, st', h') \<Rightarrow> addrCounter st' = addrCounter (fst sizes_state) + 1
    | _ \<Rightarrow> False)"
proof -
  have "\<lceil>real_of_int (1 * (- 1)) / 4\<rceil> = (0::int)"
    using ceiling_divide_eq_div [of "- 1" 4] by simp
  then show ?thesis
    by (simp add: sizes_state_def sizes_heap0_def symbol_eval)
qed

text \<open>
  C5, amended. After a successful \<open>Register\<close> the size is positive. For a variable,
  the item's address is the counter before the call and the counter has advanced by
  the ceiling of \<open>s / 4\<close>. For an array whose length is not negative and whose total
  size \<open>s * arrayLength\<close> is below \<open>2^63\<close>, the same with the ceiling of
  \<open>s * arrayLength / 4\<close>. Variables of sizes 4, 6 and 4 registered in this order on a
  new table get the addresses base, base + 1 and base + 3.
\<close>

theorem Register_address_and_advance:
  assumes reg: "Register h st (Some p) = Inr (None, st', h')"
    and it: "it = cells (SymbolTableItems h) p"
  shows "0 < sint (VariableSize it) \<and>
     (SymbolTableItem.Type it = SymbolTableItemTypeVariable \<longrightarrow>
        Address (cells (SymbolTableItems h') p) = addrCounter st \<and>
        addrCounter st' =
          addrCounter st + word_of_int \<lceil>real_of_int (sint (VariableSize it)) / 4\<rceil>) \<and>
     (SymbolTableItem.Type it = SymbolTableItemTypeArray \<and> 0 \<le> sint (ArraySize it) \<and>
      sint (VariableSize it) * sint (ArraySize it) < 2 ^ 63 \<longrightarrow>
        Address (cells (SymbolTableItems h') p) = addrCounter st \<and>
        addrCounter st' =
          addrCounter st +
            word_of_int \<lceil>real_of_int (sint (VariableSize it) * sint (ArraySize it)) / 4\<rceil>) \<and>
     (case Register_all [0, 1, 2] sizes_state of
        (st3, h3) \<Rightarrow> map (\<lambda>q. Address (cells (SymbolTableItems h3) q)) [0, 1, 2]) =
       [initialAddr, initialAddr + 1, initialAddr + 3]"
proof -
  note s = Register_success [OF reg, folded it]
  have pos: "0 < sint (VariableSize it)"
    using s by simp
  have var: "advance (addrCounter st) (VariableSize it) =
      addrCounter st + word_of_int \<lceil>real_of_int (sint (VariableSize it)) / 4\<rceil>"
    using pos by (intro advance_ceiling) simp
  have arr: "advance (addrCounter st) (VariableSize it * ArraySize it) =
      addrCounter st +
        word_of_int \<lceil>real_of_int (sint (VariableSize it) * sint (ArraySize it)) / 4\<rceil>"
    if len: "0 \<le> sint (ArraySize it)"
      and fit: "sint (VariableSize it) * sint (ArraySize it) < 2 ^ 63"
  proof -
    have nonneg: "0 \<le> sint (VariableSize it) * sint (ArraySize it)"
      using pos len by simp
    then have "sint (VariableSize it * ArraySize it) = sint (VariableSize it) * sint (ArraySize it)"
      using fit by (intro sint_mult64) simp_all
    with nonneg advance_ceiling [of "VariableSize it * ArraySize it" "addrCounter st"]
    show ?thesis by simp
  qed
  have ex: "(case Register_all [0, 1, 2] sizes_state of
        (st3, h3) \<Rightarrow> map (\<lambda>q. Address (cells (SymbolTableItems h3) q)) [0, 1, 2]) =
       [initialAddr, initialAddr + 1, initialAddr + 3]"
    by (simp add: Register_all_def sizes_state_def sizes_heap0_def symbol_eval)
  from s pos var arr ex show ?thesis
    by simp
qed

text \<open>The variable of size 6, registered first in its scope.\<close>

theorem Register_address_and_advance_witness:
  "(\<exists>st' h'. Register (snd sizes_state) (fst sizes_state) (Some 1) = Inr (None, st', h') \<and>
      sint (VariableSize (cells (SymbolTableItems (snd sizes_state)) 1)) = 6 \<and>
      Address (cells (SymbolTableItems h') 1) = initialAddr \<and>
      addrCounter st' = initialAddr + word_of_int \<lceil>real_of_int 6 / 4\<rceil> \<and>
      addrCounter st' = initialAddr + 2)"
proof -
  obtain st' h' where reg:
    "Register (snd sizes_state) (fst sizes_state) (Some 1) = Inr (None, st', h')"
    and c: "addrCounter st' = initialAddr + 2"
    by (simp add: sizes_state_def sizes_heap0_def symbol_eval)
  have six: "sint (VariableSize (cells (SymbolTableItems (snd sizes_state)) 1)) = 6"
    and var: "SymbolTableItem.Type (cells (SymbolTableItems (snd sizes_state)) 1) =
      SymbolTableItemTypeVariable"
    and base: "addrCounter (fst sizes_state) = initialAddr"
    by (simp_all add: sizes_state_def sizes_heap0_def symbol_eval)
  from Register_address_and_advance [OF reg refl] six var base c reg show ?thesis
    by simp
qed

section \<open>TempAddr\<close>

text \<open>
  C6, as stated: no address of \<open>TempAddr\<close> is the address of a registered variable or
  array, and no two calls of \<open>TempAddr\<close> return equal or overlapping addresses. It
  fails where a size is not positive, which \<open>TempAddr\<close> does not check: two calls with
  size 0 on a new table both return the base address; and after \<open>a\<close> has been
  registered at the base address, a call with size -4 moves the counter back onto it
  and the next call, with size 4, returns the address of \<open>a\<close>.
\<close>

theorem TempAddr_repeats_addresses:
  "fst (TempAddr (NewSymbolTable None None) 0) = initialAddr \<and>
   fst (TempAddr (snd (TempAddr (NewSymbolTable None None) 0)) 0) = initialAddr \<and>
   (case calls [CallEnterScope, CallRegister (Some 0), CallTempAddr (- 4), CallTempAddr 4]
           (sizes_heap0, NewSymbolTable None None, []) of
      Inl _ \<Rightarrow> False
    | Inr (h, st, gs) \<Rightarrow>
        Scope.Items (cells (Scopes h) 0) ''a'' = Some 0 \<and>
        Address (cells (SymbolTableItems h) 0) = initialAddr \<and>
        gs = [(initialAddr, initialAddr + 1), (initialAddr + 1, initialAddr),
              (initialAddr, initialAddr + 1)])"
  by (simp add: sizes_heap0_def symbol_eval has_address_def)

text \<open>
  C6, amended. Take any sequence of \<open>EnterScope\<close>, \<open>ExitScope\<close>, \<open>Register\<close> and
  \<open>TempAddr\<close> calls on a new table in which every \<open>TempAddr\<close> has a positive size,
  every \<open>Register\<close> is given an item, every array offered has a positive length and a
  total size within the range of \<open>int\<close>, and the counter cannot leave that range
  (\<open>fits\<close>). Then no call panics, and the addresses handed out, by \<open>TempAddr\<close> and to
  registered variables and arrays alike, each with the words up to the counter after
  it, lie one after the other: every grant is non-empty, a later one starts at or after
  the end of an earlier one, and no two start at the same address.
\<close>

theorem grants_disjoint:
  assumes "fits h0 (sint initialAddr) cs"
  shows "\<exists>h st gs. calls cs (h0, NewSymbolTable enter exit, []) = Inr (h, st, gs) \<and>
     (\<forall>i. i < length gs \<longrightarrow> sint (fst (gs ! i)) < sint (snd (gs ! i))) \<and>
     (\<forall>i j. i < j \<and> j < length gs \<longrightarrow>
        sint (snd (gs ! i)) \<le> sint (fst (gs ! j)) \<and> fst (gs ! i) \<noteq> fst (gs ! j))"
proof -
  have "same_items h0 h0"
    by (simp add: same_items_def)
  moreover have "chained [] (sint (addrCounter (NewSymbolTable enter exit)))"
    by (simp add: chained_def)
  moreover have "sint (addrCounter (NewSymbolTable enter exit)) \<le> sint initialAddr"
    by (simp add: NewSymbolTable_def)
  ultimately obtain h st gs where
    run: "calls cs (h0, NewSymbolTable enter exit, []) = Inr (h, st, gs)"
    and ch: "chained gs (sint (addrCounter st))"
    using calls_inv [OF assms] by blast
  have ne: "sint (fst (gs ! i)) < sint (snd (gs ! i))" if "i < length gs" for i
    using ch that by (simp add: chained_def)
  have ord: "sint (snd (gs ! i)) \<le> sint (fst (gs ! j))" if "i < j" "j < length gs" for i j
    using ch that by (simp add: chained_def sorted_wrt_iff_nth_less)
  have "fst (gs ! i) \<noteq> fst (gs ! j)" if "i < j" "j < length gs" for i j
    using ne [of i] ord [OF that] that by auto
  with run ne ord show ?thesis
    by blast
qed

text \<open>The example sequence: five grants, of 1, 2, 2, 1 and 2 words.\<close>

theorem grants_disjoint_witness:
  "fits sizes_heap0 (sint initialAddr) demo_calls \<and>
   (\<exists>h st. calls demo_calls (sizes_heap0, NewSymbolTable None None, []) =
      Inr (h, st,
        [(initialAddr, initialAddr + 1), (initialAddr + 1, initialAddr + 3),
         (initialAddr + 3, initialAddr + 5), (initialAddr + 5, initialAddr + 6),
         (initialAddr + 6, initialAddr + 8)]))"
proof -
  have f: "fits sizes_heap0 (sint initialAddr) demo_calls"
    by (simp add: demo_calls_def sizes_heap0_def symbol_eval words_def)
  from grants_disjoint [OF f, of None None] obtain h st gs where
    run: "calls demo_calls (sizes_heap0, NewSymbolTable None None, []) = Inr (h, st, gs)"
    by blast
  moreover have "snd (snd (projr (calls demo_calls (sizes_heap0, NewSymbolTable None None, [])))) =
      [(initialAddr, initialAddr + 1), (initialAddr + 1, initialAddr + 3),
       (initialAddr + 3, initialAddr + 5), (initialAddr + 5, initialAddr + 6),
       (initialAddr + 6, initialAddr + 8)]"
    by (simp add: demo_calls_def sizes_heap0_def symbol_eval has_address_def)
  ultimately show ?thesis
    using f by simp
qed
end
